theory Spec2Isabelle
  imports Complex_Main "HOL-Library.Log_Nat"
begin

section \<open>Octopus.tsx: data\<close>

text \<open>
  The component \<^verbatim>\<open>Octopus\<close> of \<^verbatim>\<open>src/Octopus.tsx\<close> holds nine React state cells and
  five refs, registers one \<^verbatim>\<open>mousemove\<close> listener and runs four self-rescheduling
  timer loops. The embedding keeps the cells and refs in one record together with the
  parts of the host the code talks to: the table of pending \<^verbatim>\<open>setTimeout\<close> callbacks,
  the clock read by \<^verbatim>\<open>Date.now()\<close> and the stream of values returned by
  \<^verbatim>\<open>Math.random()\<close>. Times, delays and draws are real numbers; grid coordinates, which
  the code only ever builds from integer literals, are integers. The pointer geometry of
  lines 97-104, where a rounding error of the arithmetic decides on which side of the
  dead-zone a pointer lies, is computed in double precision.
\<close>

text \<open>\<^verbatim>\<open>{ x: number; y: number }\<close> (lines 63, 72, 77).\<close>

record vec2 =
  vx :: int
  vy :: int

datatype eye_mode = Track | Wander

text \<open>
  One constructor for each function passed to \<^verbatim>\<open>setTimeout\<close>. A closure that reads
  a variable of its enclosing scope carries the captured value as an argument.
\<close>

datatype callback =
    EyeTrackTimeout vec2   \<comment> \<open>line 117; reads \<^verbatim>\<open>pupilOffset\<close> of the enclosing render\<close>
  | EyeCycle vec2          \<comment> \<open>line 127, \<^verbatim>\<open>cycle\<close>\<close>
  | BlinkTimeout           \<comment> \<open>line 138\<close>
  | BlinkDoubleOpen        \<comment> \<open>line 142\<close>
  | BlinkDoubleClose       \<comment> \<open>line 144\<close>
  | BlinkOpenSchedule      \<comment> \<open>lines 146, 151, 154: \<^verbatim>\<open>setIsBlinking(false); schedule()\<close>\<close>
  | FlashTimeout           \<comment> \<open>line 166\<close>
  | FlashSetRow int        \<comment> \<open>line 169\<close>
  | FlashClear             \<comment> \<open>line 171\<close>
  | IdleTimeout            \<comment> \<open>line 183\<close>
  | WiggleSet "int set"    \<comment> \<open>lines 193, 198, 223-226: \<^verbatim>\<open>setWiggleGroups(new Set(...))\<close>\<close>
  | IdleWaveStep int       \<comment> \<open>line 196\<close>
  | CrossEyeBlink          \<comment> \<open>line 205\<close>
  | CrossEyeEnd            \<comment> \<open>line 207\<close>
  | BlinkOpen              \<comment> \<open>line 221\<close>

record timer =
  tid :: nat
  due :: real
  cb :: callback

record world =
  \<comment> \<open>state cells, lines 72-80\<close>
  pupilOffset :: vec2
  isBlinking :: bool
  isCrossEyed :: bool
  crossEyedY :: int
  isHovered :: bool
  randomPupil :: "vec2 option"
  wiggleGroups :: "int set"
  flashRow :: "int option"
  eyeMode :: eye_mode
  \<comment> \<open>refs, lines 81-85\<close>
  blinkRef :: "nat option"
  idleRef :: "nat option"
  eyeRef :: "nat option"
  flashRef :: "nat option"
  lastMouseMoveRef :: real
  \<comment> \<open>host: the \<^verbatim>\<open>mousemove\<close> listener, pending timers, clock, random source\<close>
  listening :: bool
  timers :: "timer list"
  nextId :: nat
  now :: real
  rnd :: "nat \<Rightarrow> real"
  draws :: nat

section \<open>Host operations\<close>

text \<open>\<^verbatim>\<open>Math.random()\<close>: the next value of the stream.\<close>

definition random :: "world \<Rightarrow> real \<times> world" where
  "random w = (rnd w (draws w), w\<lparr>draws := Suc (draws w)\<rparr>)"

text \<open>
  \<^verbatim>\<open>setTimeout(f, d)\<close>: a new pending entry, due \<open>d\<close> after the current time; returns its
  id. Every delay in the file is a sum of non-negative literals and of products of a
  draw with a positive literal, so it is not negative for draws in [0, 1).
\<close>

definition setTimeout :: "callback \<Rightarrow> real \<Rightarrow> world \<Rightarrow> nat \<times> world" where
  "setTimeout f d w =
     (nextId w,
      w\<lparr>timers := timers w @ [\<lparr>tid = nextId w, due = now w + d, cb = f\<rparr>],
        nextId := Suc (nextId w)\<rparr>)"

text \<open>\<^verbatim>\<open>clearTimeout(ref.current)\<close>: drops the entry with that id, if it is still pending.\<close>

definition clearTimeout :: "nat option \<Rightarrow> world \<Rightarrow> world" where
  "clearTimeout i w = w\<lparr>timers := filter (\<lambda>t. Some (tid t) \<noteq> i) (timers w)\<rparr>"

section \<open>Constants and \<^verbatim>\<open>mergeSpans\<close>\<close>

record span =
  sr :: int
  sc :: int
  sw :: int

text \<open>The \<^verbatim>\<open>Map\<close> \<^verbatim>\<open>byRow\<close>, in insertion order (lines 17-21).\<close>

fun byRow_push :: "int \<Rightarrow> int \<Rightarrow> (int \<times> int list) list \<Rightarrow> (int \<times> int list) list" where
  "byRow_push r c [] = [(r, [c])]"
| "byRow_push r c ((r', cols) # m) =
     (if r' = r then (r', cols @ [c]) # m else (r', cols) # byRow_push r c m)"

definition byRow_of :: "(int \<times> int) list \<Rightarrow> (int \<times> int list) list" where
  "byRow_of pixels = foldl (\<lambda>m (r, c). byRow_push r c m) [] pixels"

text \<open>The inner loop of lines 25-34, on the sorted columns after the first.\<close>

fun span_runs :: "int \<Rightarrow> int \<Rightarrow> int \<Rightarrow> int list \<Rightarrow> span list" where
  "span_runs r start end [] = [\<lparr>sr = r, sc = start, sw = end - start + 1\<rparr>]"
| "span_runs r start end (c # cols) =
     (if c = end + 1 then span_runs r start c cols
      else \<lparr>sr = r, sc = start, sw = end - start + 1\<rparr> # span_runs r c c cols)"

text \<open>A row of \<^verbatim>\<open>byRow\<close> is created by the push of its first column, so it is never empty.\<close>

definition row_spans :: "int \<Rightarrow> int list \<Rightarrow> span list" where
  "row_spans r cols = (case sort cols of [] \<Rightarrow> [] | c0 # rest \<Rightarrow> span_runs r c0 c0 rest)"

definition mergeSpans :: "(int \<times> int) list \<Rightarrow> span list" where
  "mergeSpans pixels = concat (map (\<lambda>(r, cols). row_spans r cols) (byRow_of pixels))"

definition HEAD_PIXELS :: "(int \<times> int) list" where
  "HEAD_PIXELS =
    [(1,4),(1,5),(1,6),(1,7),(1,8),
     (2,3),(2,4),(2,5),(2,6),(2,7),(2,8),(2,9),
     (3,2),(3,3),(3,6),(3,9),(3,10),
     (4,2),(4,3),(4,6),(4,9),(4,10),
     (5,2),(5,3),(5,4),(5,5),(5,6),(5,7),(5,8),(5,9),(5,10),
     (6,3),(6,4),(6,5),(6,6),(6,7),(6,8),(6,9)]"

definition LEFT_EYE_PIXELS :: "(int \<times> int) list" where
  "LEFT_EYE_PIXELS = [(3,4),(3,5),(4,4),(4,5)]"

definition RIGHT_EYE_PIXELS :: "(int \<times> int) list" where
  "RIGHT_EYE_PIXELS = [(3,7),(3,8),(4,7),(4,8)]"

definition HEAD :: "span list" where
  "HEAD = mergeSpans HEAD_PIXELS"

definition LEFT_EYE :: "span list" where
  "LEFT_EYE = mergeSpans LEFT_EYE_PIXELS"

definition RIGHT_EYE :: "span list" where
  "RIGHT_EYE = mergeSpans RIGHT_EYE_PIXELS"

record tentacle =
  tc :: int
  tr :: int
  th :: int

definition TENTACLE_GROUPS :: "tentacle list" where
  "TENTACLE_GROUPS =
    [\<lparr>tc = 3, tr = 8, th = 3\<rparr>, \<lparr>tc = 5, tr = 8, th = 2\<rparr>,
     \<lparr>tc = 7, tr = 8, th = 2\<rparr>, \<lparr>tc = 9, tr = 8, th = 3\<rparr>]"

definition LOOK_DIRS :: "vec2 list" where
  "LOOK_DIRS =
    [\<lparr>vx = -1, vy = -1\<rparr>, \<lparr>vx = 1, vy = -1\<rparr>,
     \<lparr>vx = -1, vy = 1\<rparr>, \<lparr>vx = 1, vy = 1\<rparr>,
     \<lparr>vx = 0, vy = -1\<rparr>, \<lparr>vx = 0, vy = 1\<rparr>,
     \<lparr>vx = -1, vy = 0\<rparr>, \<lparr>vx = 1, vy = 0\<rparr>]"

section \<open>Double precision\<close>

text \<open>
  A JavaScript number: a finite binary64 value, an infinity or NaN. The two zeros are
  one value here; they differ only under division by a zero, and the file divides by
  the literal 2 alone.
\<close>

datatype double = Finite real | PosInf | NegInf | NaN

definition pow2 :: "int \<Rightarrow> real" where
  "pow2 e = (if 0 \<le> e then 2 ^ nat e else 1 / 2 ^ nat (- e))"

text \<open>The binary exponent of a non-zero number: the \<open>e\<close> with \<open>2\<^sup>e \<le> |x| < 2\<^sup>e\<^sup>+\<^sup>1\<close>.\<close>

definition expo :: "real \<Rightarrow> int" where
  "expo x =
     (if 1 \<le> \<bar>x\<bar> then int (floorlog 2 (nat \<lfloor>\<bar>x\<bar>\<rfloor>)) - 1
      else - int (floorlog 2 (nat \<lceil>1 / \<bar>x\<bar>\<rceil> - 1)))"

text \<open>The nearest integer, the even one of two that are equally near.\<close>

definition round_even :: "real \<Rightarrow> int" where
  "round_even y =
     (let f = \<lfloor>y\<rfloor>; d = y - of_int f
      in if d < 1 / 2 then f else if 1 / 2 < d then f + 1 else if even f then f else f + 1)"

text \<open>
  Rounding a real result to binary64, to nearest and ties to even: 53 significant bits,
  exponents from -1022 (below which the spacing stays \<open>2\<^sup>-\<^sup>1\<^sup>0\<^sup>7\<^sup>4\<close>) to 1023 (above which
  the result is an infinity).
\<close>

definition fl64 :: "real \<Rightarrow> double" where
  "fl64 x =
     (if x = 0 then Finite 0
      else
        (let e = max (expo x) (- 1022);
             q = pow2 (e - 52);
             r = of_int (round_even (x / q)) * q
         in if r \<noteq> 0 \<and> 1024 \<le> expo r then (if 0 < x then PosInf else NegInf) else Finite r))"

text \<open>The operators \<^verbatim>\<open>+\<close>, \<^verbatim>\<open>-\<close>, \<^verbatim>\<open>*\<close>, \<^verbatim>\<open>/\<close>, \<^verbatim>\<open>Math.abs\<close> and \<^verbatim>\<open>>\<close> on numbers.\<close>

fun dneg :: "double \<Rightarrow> double" where
  "dneg (Finite a) = Finite (- a)"
| "dneg PosInf = NegInf"
| "dneg NegInf = PosInf"
| "dneg NaN = NaN"

fun dadd :: "double \<Rightarrow> double \<Rightarrow> double" where
  "dadd (Finite a) (Finite b) = fl64 (a + b)"
| "dadd NaN _ = NaN"
| "dadd _ NaN = NaN"
| "dadd PosInf NegInf = NaN"
| "dadd NegInf PosInf = NaN"
| "dadd PosInf _ = PosInf"
| "dadd _ PosInf = PosInf"
| "dadd NegInf _ = NegInf"
| "dadd _ NegInf = NegInf"

definition dsub :: "double \<Rightarrow> double \<Rightarrow> double" where
  "dsub a b = dadd a (dneg b)"

fun dsign :: "double \<Rightarrow> int" where
  "dsign (Finite a) = (if 0 < a then 1 else if a < 0 then - 1 else 0)"
| "dsign PosInf = 1"
| "dsign NegInf = - 1"
| "dsign NaN = 0"

fun dmul :: "double \<Rightarrow> double \<Rightarrow> double" where
  "dmul (Finite a) (Finite b) = fl64 (a * b)"
| "dmul NaN _ = NaN"
| "dmul _ NaN = NaN"
| "dmul a b =
     (if dsign a * dsign b = 0 then NaN else if 0 < dsign a * dsign b then PosInf else NegInf)"

fun ddiv :: "double \<Rightarrow> double \<Rightarrow> double" where
  "ddiv (Finite a) (Finite b) =
     (if b = 0 then (if a = 0 then NaN else if 0 < a then PosInf else NegInf)
      else fl64 (a / b))"
| "ddiv NaN _ = NaN"
| "ddiv _ NaN = NaN"
| "ddiv (Finite a) _ = Finite 0"
| "ddiv a (Finite b) = (if 0 \<le> b then a else dneg a)"
| "ddiv _ _ = NaN"

fun dabs :: "double \<Rightarrow> double" where
  "dabs (Finite a) = Finite \<bar>a\<bar>"
| "dabs PosInf = PosInf"
| "dabs NegInf = PosInf"
| "dabs NaN = NaN"

fun dgt :: "double \<Rightarrow> double \<Rightarrow> bool" where
  "dgt (Finite a) (Finite b) = (b < a)"
| "dgt NaN _ = False"
| "dgt _ NaN = False"
| "dgt PosInf PosInf = False"
| "dgt PosInf _ = True"
| "dgt _ PosInf = False"
| "dgt NegInf _ = False"
| "dgt _ NegInf = True"

section \<open>Mouse tracking (lines 88-109)\<close>

record MouseEvent =
  clientX :: real
  clientY :: real

record DOMRect =
  rect_left :: real
  rect_top :: real
  rect_width :: real
  rect_height :: real

text \<open>
  The event and the bounding rectangle hold finite numbers: \<^verbatim>\<open>clientX\<close> and \<^verbatim>\<open>clientY\<close>
  are finite by their interface type, and the rectangle comes from layout.
\<close>

text \<open>The reference point \<^verbatim>\<open>cx\<close>, \<^verbatim>\<open>cy\<close> of lines 97-98; \<^verbatim>\<open>0.35\<close> is the nearest double.\<close>

definition cx_of :: "DOMRect \<Rightarrow> double" where
  "cx_of rect = dadd (Finite (rect_left rect)) (ddiv (Finite (rect_width rect)) (Finite 2))"

definition cy_of :: "DOMRect \<Rightarrow> double" where
  "cy_of rect = dadd (Finite (rect_top rect)) (dmul (Finite (rect_height rect)) (fl64 0.35))"

text \<open>The displacements \<^verbatim>\<open>dx\<close>, \<^verbatim>\<open>dy\<close> of lines 99-100.\<close>

definition dx_of :: "MouseEvent \<Rightarrow> DOMRect \<Rightarrow> double" where
  "dx_of e rect = dsub (Finite (clientX e)) (cx_of rect)"

definition dy_of :: "MouseEvent \<Rightarrow> DOMRect \<Rightarrow> double" where
  "dy_of e rect = dsub (Finite (clientY e)) (cy_of rect)"

text \<open>
  \<open>handler e g\<close> is the listener called with event \<open>e\<close>; \<open>g\<close> is \<open>None\<close> when
  \<^verbatim>\<open>svgRef.current\<close> is null and otherwise the result of \<^verbatim>\<open>getBoundingClientRect()\<close>.
  The effect depends on \<^verbatim>\<open>eyeMode\<close> and is re-run when it changes, so the listener reads
  the current mode.
\<close>

definition handler :: "MouseEvent \<Rightarrow> DOMRect option \<Rightarrow> world \<Rightarrow> world" where
  "handler e g w =
     (let w1 = w\<lparr>lastMouseMoveRef := now w\<rparr>;
          w2 = (if eyeMode w1 = Wander then w1\<lparr>eyeMode := Track, randomPupil := None\<rparr> else w1)
      in case g of
           None \<Rightarrow> w2
         | Some rect \<Rightarrow>
             (let dx = dx_of e rect;
                  dy = dy_of e rect;
                  dead = Finite 30
              in w2\<lparr>pupilOffset :=
                     \<lparr>vx = (if dgt (dabs dx) dead then (if dgt dx (Finite 0) then 1 else -1) else 0),
                      vy = (if dgt (dabs dy) dead then (if dgt dy (Finite 0) then 1 else -1) else 0)\<rparr>\<rparr>))"

section \<open>Eye mode cycle (lines 112-132)\<close>

text \<open>
  The effect has an empty dependency list: it runs once, after the first render, and
  \<^verbatim>\<open>pupilOffset\<close> inside \<^verbatim>\<open>cycle\<close> is the constant of that render. \<open>captured\<close> is
  that value.
\<close>

definition cycle :: "vec2 \<Rightarrow> world \<Rightarrow> world" where
  "cycle captured w =
     (let w1 = w\<lparr>eyeMode := Track, randomPupil := None\<rparr>;
          (r, w2) = random w1;
          trackDur = 5000 + r * 3000;
          (i, w3) = setTimeout (EyeTrackTimeout captured) trackDur w2
      in w3\<lparr>eyeRef := Some i\<rparr>)"

text \<open>\<^verbatim>\<open>away[i]\<close>: \<^verbatim>\<open>undefined\<close> out of range, which the one reader (line 234) treats as null.\<close>

definition index_opt :: "'a list \<Rightarrow> int \<Rightarrow> 'a option" where
  "index_opt xs i = (if 0 \<le> i \<and> i < int (length xs) then Some (xs ! nat i) else None)"

definition eyeTrackTimeout :: "vec2 \<Rightarrow> world \<Rightarrow> world" where
  "eyeTrackTimeout captured w =
     (let mouseIdle = now w - lastMouseMoveRef w
      in if mouseIdle < 2000 then cycle captured w
         else
           (let w1 = w\<lparr>eyeMode := Wander\<rparr>;
                mouseX = (if vx captured < 0 then -1 else if vx captured > 0 then 1 else 0);
                mouseY = (if vy captured < 0 then -1 else if vy captured > 0 then 1 else 0);
                away = filter (\<lambda>d. vx d \<noteq> mouseX \<or> vy d \<noteq> mouseY) LOOK_DIRS;
                (r, w2) = random w1;
                dir = index_opt away \<lfloor>r * real (length away)\<rfloor>;
                w3 = w2\<lparr>randomPupil := dir\<rparr>;
                (r', w4) = random w3;
                wanderDur = 800 + r' * 1200;
                (i, w5) = setTimeout (EyeCycle captured) wanderDur w4
            in w5\<lparr>eyeRef := Some i\<rparr>))"

section \<open>Auto blink (lines 135-160)\<close>

definition schedule_blink :: "world \<Rightarrow> world" where
  "schedule_blink w =
     (let (r, w1) = random w;
          delay = 2000 + r * 6000;
          (i, w2) = setTimeout BlinkTimeout delay w1
      in w2\<lparr>blinkRef := Some i\<rparr>)"

definition blinkTimeout :: "world \<Rightarrow> world" where
  "blinkTimeout w =
     (let (roll, w1) = random w
      in if roll < 0.25 then snd (setTimeout BlinkDoubleOpen 80 (w1\<lparr>isBlinking := True\<rparr>))
         else if roll < 0.40 then snd (setTimeout BlinkOpenSchedule 250 (w1\<lparr>isBlinking := True\<rparr>))
         else snd (setTimeout BlinkOpenSchedule 100 (w1\<lparr>isBlinking := True\<rparr>)))"

definition blinkDoubleOpen :: "world \<Rightarrow> world" where
  "blinkDoubleOpen w = snd (setTimeout BlinkDoubleClose 150 (w\<lparr>isBlinking := False\<rparr>))"

definition blinkDoubleClose :: "world \<Rightarrow> world" where
  "blinkDoubleClose w = snd (setTimeout BlinkOpenSchedule 80 (w\<lparr>isBlinking := True\<rparr>))"

definition blinkOpenSchedule :: "world \<Rightarrow> world" where
  "blinkOpenSchedule w = schedule_blink (w\<lparr>isBlinking := False\<rparr>)"

section \<open>Flash sweep (lines 163-177)\<close>

definition schedule_flash :: "world \<Rightarrow> world" where
  "schedule_flash w =
     (let (r, w1) = random w;
          delay = 15000 + r * 5000;
          (i, w2) = setTimeout FlashTimeout delay w1
      in w2\<lparr>flashRef := Some i\<rparr>)"

text \<open>\<^verbatim>\<open>rows.forEach((row, i) => setTimeout(..., i * 70))\<close>, from index \<open>i\<close> on.\<close>

fun flash_rows :: "int list \<Rightarrow> nat \<Rightarrow> world \<Rightarrow> world" where
  "flash_rows [] i w = w"
| "flash_rows (row # rows) i w =
     flash_rows rows (Suc i) (snd (setTimeout (FlashSetRow row) (real i * 70) w))"

definition flashTimeout :: "world \<Rightarrow> world" where
  "flashTimeout w =
     (let rows = [1, 2, 3, 4, 5, 6];
          w1 = flash_rows rows 0 w;
          w2 = snd (setTimeout FlashClear (real (length rows) * 70) w1)
      in schedule_flash w2)"

section \<open>Random idle gesture (lines 180-216)\<close>

definition schedule_idle :: "world \<Rightarrow> world" where
  "schedule_idle w =
     (let (r, w1) = random w;
          delay = 5000 + r * 3000;
          (i, w2) = setTimeout IdleTimeout delay w1
      in w2\<lparr>idleRef := Some i\<rparr>)"

text \<open>
  The loop of lines 189-191 draws until the set holds \<^verbatim>\<open>count\<close> indices; it does not
  return when the draws keep repeating, which is the value \<open>None\<close>. The arguments are
  the random stream, the number of draws taken so far, \<^verbatim>\<open>count\<close> and the set.
\<close>

partial_function (option) fill_indices ::
  "(nat \<Rightarrow> real) \<Rightarrow> nat \<Rightarrow> nat \<Rightarrow> int set \<Rightarrow> (int set \<times> nat) option" where
  "fill_indices f n count indices =
     (if card indices < count
      then fill_indices f (Suc n) count (insert \<lfloor>f n * 4\<rfloor> indices)
      else Some (indices, n))"

declare fill_indices.simps [code]

text \<open>\<^verbatim>\<open>[0, 1, 2, 3].forEach((gi, i) => setTimeout(..., i * 150))\<close>, from index \<open>i\<close> on.\<close>

fun idle_wave :: "int list \<Rightarrow> nat \<Rightarrow> world \<Rightarrow> world" where
  "idle_wave [] i w = w"
| "idle_wave (gi # gis) i w =
     idle_wave gis (Suc i) (snd (setTimeout (IdleWaveStep gi) (real i * 150) w))"

definition idleTimeout :: "world \<Rightarrow> world option" where
  "idleTimeout w =
     (let (roll, w1) = random w
      in if roll < 0.40 then
           (let (r, w2) = random w1;
                count = (if r < 0.4 then 2 else 1)
            in case fill_indices (rnd w2) (draws w2) count {} of
                 None \<Rightarrow> None
               | Some (indices, n) \<Rightarrow>
                   (let w3 = w2\<lparr>draws := n, wiggleGroups := indices\<rparr>;
                        (r', w4) = random w3;
                        w5 = snd (setTimeout (WiggleSet {}) (250 + r' * 200) w4)
                    in Some (schedule_idle w5)))
         else if roll < 0.60 then
           Some (schedule_idle (idle_wave [0, 1, 2, 3] 0 w1))
         else if roll < 0.80 then
           (let w2 = w1\<lparr>isCrossEyed := True\<rparr>;
                (r, w3) = random w2;
                w4 = w3\<lparr>crossEyedY := (if r < 0.5 then 3 else 4)\<rparr>;
                (r', w5) = random w4;
                dur = 1500 + r' * 500;
                w6 = snd (setTimeout CrossEyeBlink dur w5)
            in Some (schedule_idle w6))
         else Some (schedule_idle w1))"

definition idleWaveStep :: "int \<Rightarrow> world \<Rightarrow> world" where
  "idleWaveStep gi w = snd (setTimeout (WiggleSet {}) 200 (w\<lparr>wiggleGroups := {gi}\<rparr>))"

definition crossEyeBlink :: "world \<Rightarrow> world" where
  "crossEyeBlink w = snd (setTimeout CrossEyeEnd 100 (w\<lparr>isBlinking := True\<rparr>))"

definition crossEyeEnd :: "world \<Rightarrow> world" where
  "crossEyeEnd w = w\<lparr>isCrossEyed := False, isBlinking := False\<rparr>"

section \<open>Pointer enter and leave (lines 218-231)\<close>

definition handleMouseEnter :: "world \<Rightarrow> world" where
  "handleMouseEnter w =
     (let w1 = w\<lparr>isHovered := True\<rparr>;
          w2 = w1\<lparr>isBlinking := True\<rparr>;
          w3 = snd (setTimeout BlinkOpen 120 w2);
          w4 = snd (setTimeout (WiggleSet {1, 2}) 50 w3);
          w5 = snd (setTimeout (WiggleSet {0, 1, 2, 3}) 150 w4);
          w6 = snd (setTimeout (WiggleSet {0, 3}) 300 w5)
      in snd (setTimeout (WiggleSet {}) 450 w6))"

definition handleMouseLeave :: "world \<Rightarrow> world" where
  "handleMouseLeave w = w\<lparr>isHovered := False\<rparr>"

section \<open>Running callbacks\<close>

fun run_callback :: "callback \<Rightarrow> world \<Rightarrow> world option" where
  "run_callback (EyeTrackTimeout p) w = Some (eyeTrackTimeout p w)"
| "run_callback (EyeCycle p) w = Some (cycle p w)"
| "run_callback BlinkTimeout w = Some (blinkTimeout w)"
| "run_callback BlinkDoubleOpen w = Some (blinkDoubleOpen w)"
| "run_callback BlinkDoubleClose w = Some (blinkDoubleClose w)"
| "run_callback BlinkOpenSchedule w = Some (blinkOpenSchedule w)"
| "run_callback FlashTimeout w = Some (flashTimeout w)"
| "run_callback (FlashSetRow row) w = Some (w\<lparr>flashRow := Some row\<rparr>)"
| "run_callback FlashClear w = Some (w\<lparr>flashRow := None\<rparr>)"
| "run_callback IdleTimeout w = idleTimeout w"
| "run_callback (WiggleSet s) w = Some (w\<lparr>wiggleGroups := s\<rparr>)"
| "run_callback (IdleWaveStep gi) w = Some (idleWaveStep gi w)"
| "run_callback CrossEyeBlink w = Some (crossEyeBlink w)"
| "run_callback CrossEyeEnd w = Some (crossEyeEnd w)"
| "run_callback BlinkOpen w = Some (w\<lparr>isBlinking := False\<rparr>)"

text \<open>
  The host takes a pending entry out of the table, moves the clock to its due time when
  that is later, and calls the function.
\<close>

definition fire :: "timer \<Rightarrow> world \<Rightarrow> world option" where
  "fire tm w = run_callback (cb tm) (w\<lparr>timers := remove1 tm (timers w), now := max (now w) (due tm)\<rparr>)"

text \<open>The entry due first; among entries due at the same time, the one set first.\<close>

fun earliest :: "timer list \<Rightarrow> timer option" where
  "earliest [] = None"
| "earliest (t # ts) =
     (case earliest ts of
        None \<Rightarrow> Some t
      | Some u \<Rightarrow> if due u < due t then Some u else Some t)"

text \<open>
  Letting time pass until \<open>t\<close>: every entry due by then runs, in order. \<open>None\<close> when a
  callback does not return or the entries never stop coming.
\<close>

partial_function (option) advance :: "real \<Rightarrow> world \<Rightarrow> world option" where
  "advance t w =
     (case earliest (timers w) of
        None \<Rightarrow> Some (w\<lparr>now := max (now w) t\<rparr>)
      | Some tm \<Rightarrow>
          if due tm \<le> t then Option.bind (fire tm w) (advance t)
          else Some (w\<lparr>now := max (now w) t\<rparr>))"

declare advance.simps [code]

section \<open>Mount and unmount\<close>

text \<open>
  The first render with the initial values of lines 72-85, followed by the five effects
  in source order, at time \<open>t0\<close> with random stream \<open>f\<close>.
\<close>

definition initial :: "real \<Rightarrow> (nat \<Rightarrow> real) \<Rightarrow> world" where
  "initial t0 f =
     \<lparr>pupilOffset = \<lparr>vx = 0, vy = 0\<rparr>, isBlinking = False, isCrossEyed = False,
      crossEyedY = 4, isHovered = False, randomPupil = None, wiggleGroups = {},
      flashRow = None, eyeMode = Track,
      blinkRef = None, idleRef = None, eyeRef = None, flashRef = None,
      lastMouseMoveRef = 0,
      listening = False, timers = [], nextId = 1, now = t0, rnd = f, draws = 0\<rparr>"

definition mount :: "real \<Rightarrow> (nat \<Rightarrow> real) \<Rightarrow> world" where
  "mount t0 f =
     (let w0 = initial t0 f;
          w1 = w0\<lparr>listening := True\<rparr>;
          w2 = cycle (pupilOffset w0) w1;
          w3 = schedule_blink w2;
          w4 = schedule_flash w3
      in schedule_idle w4)"

text \<open>The cleanups of lines 108, 131, 159, 176 and 215.\<close>

definition unmount :: "world \<Rightarrow> world" where
  "unmount w =
     (let w1 = w\<lparr>listening := False\<rparr>;
          w2 = clearTimeout (eyeRef w1) w1;
          w3 = clearTimeout (blinkRef w2) w2;
          w4 = clearTimeout (flashRef w3) w3
      in clearTimeout (idleRef w4) w4)"

section \<open>Pose resolution and rendering (lines 234-300)\<close>

record OctopusColors =
  body :: string
  eye :: string
  glow :: string

record rect =
  rx :: int
  ry :: int
  rwidth :: int
  rheight :: real
  fill :: string
  opacity :: "real option"

definition effectivePupil :: "world \<Rightarrow> vec2" where
  "effectivePupil w =
     (case randomPupil w of
        Some p \<Rightarrow> if eyeMode w = Wander then p else pupilOffset w
      | None \<Rightarrow> pupilOffset w)"

definition pupilX :: "world \<Rightarrow> int" where
  "pupilX w = (if vx (effectivePupil w) < 0 then 0 else if vx (effectivePupil w) > 0 then 1 else 0)"

definition pupilY :: "world \<Rightarrow> int" where
  "pupilY w = (if vy (effectivePupil w) < 0 then 0 else if vy (effectivePupil w) > 0 then 1 else 0)"

definition leftPx :: "world \<Rightarrow> int" where
  "leftPx w = (if isCrossEyed w then 5 else 4 + pupilX w)"

definition leftPy :: "world \<Rightarrow> int" where
  "leftPy w = (if isCrossEyed w then crossEyedY w else 3 + pupilY w)"

definition rightPx :: "world \<Rightarrow> int" where
  "rightPx w = (if isCrossEyed w then 7 else 7 + pupilX w)"

definition rightPy :: "world \<Rightarrow> int" where
  "rightPy w = (if isCrossEyed w then crossEyedY w else 3 + pupilY w)"

definition eyesClosed :: "world \<Rightarrow> bool" where
  "eyesClosed w = isBlinking w"

text \<open>\<^verbatim>\<open>xs.map((t, gi) => ...)\<close>, from index \<open>gi\<close> on.\<close>

fun map_index :: "('a \<Rightarrow> int \<Rightarrow> 'b) \<Rightarrow> int \<Rightarrow> 'a list \<Rightarrow> 'b list" where
  "map_index f gi [] = []"
| "map_index f gi (t # ts) = f t gi # map_index f (gi + 1) ts"

text \<open>
  The element tree returned by the component: the hover lift of the \<^verbatim>\<open>style\<close> and the five
  groups of \<^verbatim>\<open>rect\<close> children. The attributes that depend on the props alone (size, class
  name, glow filter) and the React keys are left out.
\<close>

record svg =
  transform :: string
  head :: "rect list"
  leftEye :: "rect list"
  rightEye :: "rect list"
  pupils :: "rect list"
  tentacles :: "rect list"

definition Octopus :: "OctopusColors \<Rightarrow> world \<Rightarrow> svg" where
  "Octopus colors w =
     \<lparr>transform = (if isHovered w then ''translateY(-8px)'' else ''translateY(0)''),
      head = map (\<lambda>s. \<lparr>rx = sc s, ry = sr s, rwidth = sw s, rheight = 1.02,
                        fill = (if flashRow w = Some (sr s) then eye colors else body colors),
                        opacity = None\<rparr>) HEAD,
      leftEye = map (\<lambda>s. \<lparr>rx = sc s, ry = sr s, rwidth = sw s, rheight = 1.02,
                           fill = (if eyesClosed w then body colors else eye colors),
                           opacity = None\<rparr>) LEFT_EYE,
      rightEye = map (\<lambda>s. \<lparr>rx = sc s, ry = sr s, rwidth = sw s, rheight = 1.02,
                            fill = (if eyesClosed w then body colors else eye colors),
                            opacity = None\<rparr>) RIGHT_EYE,
      pupils = (if \<not> eyesClosed w
                then [\<lparr>rx = leftPx w, ry = leftPy w, rwidth = 1, rheight = 1.02,
                       fill = ''#0A0908'', opacity = None\<rparr>,
                      \<lparr>rx = rightPx w, ry = rightPy w, rwidth = 1, rheight = 1.02,
                       fill = ''#0A0908'', opacity = None\<rparr>]
                else []),
      tentacles = map_index (\<lambda>t gi.
                     \<lparr>rx = tc t + (if gi \<in> wiggleGroups w then (if gi < 2 then -1 else 1) else 0),
                      ry = tr t, rwidth = 1, rheight = real_of_int (th t),
                      fill = body colors,
                      opacity = Some (if gi \<in> wiggleGroups w then 0.65 else 0.45)\<rparr>)
                   0 TENTACLE_GROUPS\<rparr>"

text \<open>A pupil: the \<^verbatim>\<open>rect\<close> of lines 283-284 at a given column and row.\<close>

definition pupil_at :: "int \<Rightarrow> int \<Rightarrow> rect" where
  "pupil_at col row =
     \<lparr>rx = col, ry = row, rwidth = 1, rheight = 1.02, fill = ''#0A0908'', opacity = None\<rparr>"

section \<open>Runs of a mounted component\<close>

text \<open>
  The worlds a mounted component can be in: after mounting, any pending callback may
  run, the pointer may move, enter or leave, and time may pass. Timers are allowed to
  run in any order here, which covers the order the host really uses.
\<close>

inductive reachable :: "world \<Rightarrow> bool" where
  reach_mount: "reachable (mount t0 f)"
| reach_fire: "reachable w \<Longrightarrow> tm \<in> set (timers w) \<Longrightarrow> fire tm w = Some w' \<Longrightarrow> reachable w'"
| reach_move: "reachable w \<Longrightarrow> reachable (handler e g w)"
| reach_enter: "reachable w \<Longrightarrow> reachable (handleMouseEnter w)"
| reach_leave: "reachable w \<Longrightarrow> reachable (handleMouseLeave w)"
| reach_tick: "reachable w \<Longrightarrow> now w \<le> t \<Longrightarrow> reachable (w\<lparr>now := t\<rparr>)"

text \<open>
  The pending callbacks of the autonomous blink loop: the steps of an episode under way
  (lines 142, 144, 146, 151, 154) and the delay before the next episode (line 138).
\<close>

definition episode_steps :: "world \<Rightarrow> timer list" where
  "episode_steps w =
     filter (\<lambda>t. cb t = BlinkDoubleOpen \<or> cb t = BlinkDoubleClose \<or> cb t = BlinkOpenSchedule) (timers w)"

definition delay_timers :: "world \<Rightarrow> timer list" where
  "delay_timers w = filter (\<lambda>t. cb t = BlinkTimeout) (timers w)"

text \<open>What pointer-enter drives: the hover flag, the blink flag and the wiggle set.\<close>

definition hover_view :: "world \<Rightarrow> bool \<times> bool \<times> int set" where
  "hover_view v = (isHovered v, isBlinking v, wiggleGroups v)"

text \<open>The five callbacks pointer-enter leaves pending (lines 221-226), in the order set.\<close>

definition hover_timers :: "world \<Rightarrow> timer list" where
  "hover_timers w =
     [\<lparr>tid = nextId w, due = now w + 120, cb = BlinkOpen\<rparr>,
      \<lparr>tid = nextId w + 1, due = now w + 50, cb = WiggleSet {1, 2}\<rparr>,
      \<lparr>tid = nextId w + 2, due = now w + 150, cb = WiggleSet {0, 1, 2, 3}\<rparr>,
      \<lparr>tid = nextId w + 3, due = now w + 300, cb = WiggleSet {0, 3}\<rparr>,
      \<lparr>tid = nextId w + 4, due = now w + 450, cb = WiggleSet {}\<rparr>]"

text \<open>
  A random stream under which the first idle gesture, 5000 after mounting, is a wiggle
  of limb 3 alone, cleared 250 later.
\<close>

definition wiggle_draws :: "nat \<Rightarrow> real" where
  "wiggle_draws i = (if i = 3 \<or> i = 7 then 0 else if i = 4 then 1 / 10 else 9 / 10)"

text \<open>The value of \<^verbatim>\<open>pupilOffset\<close> a pending callback of the eye cycle has captured.\<close>

fun captured :: "callback \<Rightarrow> vec2 option" where
  "captured (EyeTrackTimeout p) = Some p"
| "captured (EyeCycle p) = Some p"
| "captured _ = None"


section \<open>Facts about the constants\<close>

lemmas sched_defs = random_def setTimeout_def Let_def split_def

lemmas callback_defs = eyeTrackTimeout_def cycle_def blinkTimeout_def blinkDoubleOpen_def
  blinkDoubleClose_def blinkOpenSchedule_def schedule_blink_def flashTimeout_def
  schedule_flash_def idleWaveStep_def crossEyeBlink_def crossEyeEnd_def

text \<open>Every row of \<^verbatim>\<open>byRow\<close> holds a column, so \<^verbatim>\<open>cols[0]\<close> of line 25 is defined.\<close>

lemma byRow_push_nonempty:
  "\<forall>(r', cols) \<in> set m. cols \<noteq> [] \<Longrightarrow> \<forall>(r', cols) \<in> set (byRow_push r c m). cols \<noteq> []"
  by (induction m) (auto split: if_splits)

lemma byRow_fold_nonempty:
  "\<forall>(r', cols) \<in> set m. cols \<noteq> [] \<Longrightarrow>
   \<forall>(r', cols) \<in> set (foldl (\<lambda>m (r, c). byRow_push r c m) m pixels). cols \<noteq> []"
proof (induction pixels arbitrary: m)
  case Nil
  then show ?case by simp
next
  case (Cons p pixels)
  obtain r c where p: "p = (r, c)" by (cases p)
  from Cons.prems have "\<forall>(r', cols) \<in> set (byRow_push r c m). cols \<noteq> []"
    by (rule byRow_push_nonempty)
  from Cons.IH [OF this] p show ?case by simp
qed

lemma byRow_of_nonempty: "(r, cols) \<in> set (byRow_of pixels) \<Longrightarrow> cols \<noteq> []"
  using byRow_fold_nonempty [of "[]" pixels] by (auto simp add: byRow_of_def)

lemma HEAD_spans:
  "HEAD = [\<lparr>sr = 1, sc = 4, sw = 5\<rparr>, \<lparr>sr = 2, sc = 3, sw = 7\<rparr>,
           \<lparr>sr = 3, sc = 2, sw = 2\<rparr>, \<lparr>sr = 3, sc = 6, sw = 1\<rparr>, \<lparr>sr = 3, sc = 9, sw = 2\<rparr>,
           \<lparr>sr = 4, sc = 2, sw = 2\<rparr>, \<lparr>sr = 4, sc = 6, sw = 1\<rparr>, \<lparr>sr = 4, sc = 9, sw = 2\<rparr>,
           \<lparr>sr = 5, sc = 2, sw = 9\<rparr>, \<lparr>sr = 6, sc = 3, sw = 7\<rparr>]"
  by code_simp

lemma LEFT_EYE_spans: "LEFT_EYE = [\<lparr>sr = 3, sc = 4, sw = 2\<rparr>, \<lparr>sr = 4, sc = 4, sw = 2\<rparr>]"
  by (simp add: LEFT_EYE_def mergeSpans_def LEFT_EYE_PIXELS_def byRow_of_def row_spans_def)

lemma RIGHT_EYE_spans: "RIGHT_EYE = [\<lparr>sr = 3, sc = 7, sw = 2\<rparr>, \<lparr>sr = 4, sc = 7, sw = 2\<rparr>]"
  by (simp add: RIGHT_EYE_def mergeSpans_def RIGHT_EYE_PIXELS_def byRow_of_def row_spans_def)

lemma pupils_eq:
  "pupils (Octopus c w) =
     (if isBlinking w then []
      else if isCrossEyed w then [pupil_at 5 (crossEyedY w), pupil_at 7 (crossEyedY w)]
      else [pupil_at (4 + pupilX w) (3 + pupilY w), pupil_at (7 + pupilX w) (3 + pupilY w)])"
  by (simp add: Octopus_def eyesClosed_def pupil_at_def leftPx_def leftPy_def rightPx_def rightPy_def)

lemma pupilX_eq: "pupilX w = (if 0 < vx (effectivePupil w) then 1 else 0)"
  by (simp add: pupilX_def)

lemma pupilY_eq: "pupilY w = (if 0 < vy (effectivePupil w) then 1 else 0)"
  by (simp add: pupilY_def)

section \<open>Facts about double precision\<close>

text \<open>\<open>expo\<close> is the binary exponent.\<close>

lemma nat_pow_le_real: "(2::nat) ^ a \<le> n \<Longrightarrow> (2::real) ^ a \<le> real n"
proof -
  assume "(2::nat) ^ a \<le> n"
  then have "real (2 ^ a) \<le> real n" by (simp only: of_nat_le_iff)
  then show ?thesis by simp
qed

lemma nat_le_pow_real: "n \<le> (2::nat) ^ a \<Longrightarrow> real n \<le> (2::real) ^ a"
proof -
  assume "n \<le> (2::nat) ^ a"
  then have "real n \<le> real (2 ^ a)" by (simp only: of_nat_le_iff)
  then show ?thesis by simp
qed

lemma expo_bounds:
  assumes "x \<noteq> 0"
  shows "pow2 (expo x) \<le> \<bar>x\<bar> \<and> \<bar>x\<bar> < pow2 (expo x + 1)"
proof (cases "1 \<le> \<bar>x\<bar>")
  case True
  define n where "n = nat \<lfloor>\<bar>x\<bar>\<rfloor>"
  define k where "k = floorlog 2 n"
  from True have n: "0 < n" by (simp add: n_def)
  from floorlog_bounds [OF n, of 2] have b: "2 ^ (k - 1) \<le> n" "n < 2 ^ k" by (simp_all add: k_def)
  from n have k: "0 < k" by (simp add: k_def floorlog_def)
  have e: "expo x = int k - 1" using True by (simp add: expo_def n_def k_def)
  have nx: "real n \<le> \<bar>x\<bar>" "\<bar>x\<bar> < real n + 1" using True unfolding n_def by linarith+
  from nat_pow_le_real [OF b(1)] nx have lo: "(2::real) ^ (k - 1) \<le> \<bar>x\<bar>" by linarith
  from b(2) have "n + 1 \<le> 2 ^ k" by simp
  from nat_le_pow_real [OF this] nx have hi: "\<bar>x\<bar> < 2 ^ k" by simp
  from k have "nat (int k - 1) = k - 1" by simp
  with lo hi k show ?thesis by (simp add: e pow2_def)
next
  case False
  define y where "y = 1 / \<bar>x\<bar>"
  define n where "n = nat \<lceil>y\<rceil>"
  define k where "k = floorlog 2 (n - 1)"
  from False assms have y1: "1 < y" by (simp add: y_def)
  have ny: "y \<le> real n" "real n < y + 1" using y1 unfolding n_def by linarith+
  from ny y1 have "1 < real n" by linarith
  then have n2: "2 \<le> n" by simp
  then have m: "0 < n - 1" by simp
  from floorlog_bounds [OF m, of 2] have b: "2 ^ (k - 1) \<le> n - 1" "n - 1 < 2 ^ k"
    by (simp_all add: k_def)
  from m have k: "0 < k" by (simp add: k_def floorlog_def)
  have e: "expo x = - int k" using False by (simp add: expo_def n_def k_def y_def)
  from b(2) have "n \<le> 2 ^ k" by simp
  from nat_le_pow_real [OF this] ny have yk: "y \<le> 2 ^ k" by linarith
  from nat_pow_le_real [OF b(1)] n2 have "(2::real) ^ (k - 1) \<le> real n - 1"
    by (simp add: of_nat_diff)
  with ny have yk': "2 ^ (k - 1) < y" by linarith
  have xpos: "0 < \<bar>x\<bar>" using assms by simp
  from yk xpos have lo: "1 / 2 ^ k \<le> \<bar>x\<bar>"
    unfolding y_def by (simp add: field_simps)
  from yk' xpos have hi: "\<bar>x\<bar> < 1 / 2 ^ (k - 1)"
    unfolding y_def by (simp add: field_simps)
  show ?thesis
  proof (cases "k = 1")
    case True
    with lo hi show ?thesis by (simp add: e pow2_def)
  next
    case False
    with k have "nat (int k - 1) = k - 1" "\<not> 0 \<le> 1 - int k" "\<not> 0 \<le> - int k" by simp_all
    with lo hi k show ?thesis by (simp add: e pow2_def)
  qed
qed

text \<open>A finite result of rounding is within half a unit in the last place of the exact value.\<close>

lemma pow2_pos: "0 < pow2 e"
  by (simp add: pow2_def)

lemma round_even_near: "\<bar>of_int (round_even y) - y\<bar> \<le> 1 / 2"
proof -
  have "of_int \<lfloor>y\<rfloor> \<le> y" "y < of_int \<lfloor>y\<rfloor> + 1" by linarith+
  then show ?thesis by (auto simp add: round_even_def Let_def)
qed

lemma fl64_near:
  assumes "fl64 x = Finite r"
  shows "\<bar>r - x\<bar> \<le> pow2 (max (expo x) (- 1022) - 52) / 2"
proof (cases "x = 0")
  case True
  with assms show ?thesis using pow2_pos [of "max (expo 0) (- 1022) - 52"] by (simp add: fl64_def)
next
  case False
  define q where "q = pow2 (max (expo x) (- 1022) - 52)"
  have q: "0 < q" by (simp add: q_def pow2_pos)
  from assms False have r: "r = of_int (round_even (x / q)) * q"
    by (simp add: fl64_def Let_def q_def split: if_splits)
  have "r - x = (of_int (round_even (x / q)) - x / q) * q"
    using q by (simp add: r left_diff_distrib)
  then have "\<bar>r - x\<bar> = \<bar>of_int (round_even (x / q)) - x / q\<bar> * q"
    using q by (simp add: abs_mult)
  also have "\<dots> \<le> 1 / 2 * q"
    using round_even_near [of "x / q"] q by (intro mult_right_mono) simp_all
  finally show ?thesis by (simp add: q_def)
qed

section \<open>Pointer tracking\<close>

text \<open>
  At a pixel on the edge of the dead-zone the rounding of line 98 decides: for an
  element 180 high at the top of the window, \<^verbatim>\<open>180 * 0.35\<close> is the double just below 63,
  so a pointer at \<^verbatim>\<open>clientY\<close> 93 is displaced by the double just above 30.
\<close>

lemma fl64_035: "fl64 0.35 = Finite (3152519739159347 / 2 ^ 53)"
  by code_simp

lemma dy_of_edge:
  "dy_of \<lparr>clientX = 60, clientY = 93\<rparr>
     \<lparr>rect_left = 0, rect_top = 0, rect_width = 120, rect_height = 180\<rparr> = Finite (30 + 1 / 2 ^ 47)"
  by code_simp

text \<open>
  C2. A pointer move with the element laid out sets each component of the tracked
  gaze from its own axis only. With \<open>dx\<close> the displacement of the pointer from the
  reference point on the x axis, as line 99 computes it, the x component is 0 when
  \<open>dx\<close> is within 30 of zero, 1 when it is more than 30 and -1 when it is less than -30,
  an infinite displacement included; the same holds for \<open>dy\<close> and the y component. So
  inside the dead-zone on both axes the target is (0, 0), and beyond it on one axis only
  the other component is 0.
\<close>

theorem handler_axes:
  "(dx_of e g = Finite d \<and> \<bar>d\<bar> \<le> 30 \<longrightarrow> vx (pupilOffset (handler e (Some g) w)) = 0) \<and>
   (dx_of e g = Finite d \<and> 30 < d \<or> dx_of e g = PosInf \<longrightarrow>
      vx (pupilOffset (handler e (Some g) w)) = 1) \<and>
   (dx_of e g = Finite d \<and> d < - 30 \<or> dx_of e g = NegInf \<longrightarrow>
      vx (pupilOffset (handler e (Some g) w)) = - 1) \<and>
   (dy_of e g = Finite d' \<and> \<bar>d'\<bar> \<le> 30 \<longrightarrow> vy (pupilOffset (handler e (Some g) w)) = 0) \<and>
   (dy_of e g = Finite d' \<and> 30 < d' \<or> dy_of e g = PosInf \<longrightarrow>
      vy (pupilOffset (handler e (Some g) w)) = 1) \<and>
   (dy_of e g = Finite d' \<and> d' < - 30 \<or> dy_of e g = NegInf \<longrightarrow>
      vy (pupilOffset (handler e (Some g) w)) = - 1)"
  by (cases "dx_of e g"; cases "dy_of e g") (auto simp add: handler_def Let_def)

theorem handler_axes_witness:
  "dx_of \<lparr>clientX = 160, clientY = 20\<rparr>
      \<lparr>rect_left = 0, rect_top = 0, rect_width = 120, rect_height = 200\<rparr> = Finite 100 \<and>
   dy_of \<lparr>clientX = 160, clientY = 20\<rparr>
      \<lparr>rect_left = 0, rect_top = 0, rect_width = 120, rect_height = 200\<rparr> = Finite (- 50) \<and>
   pupilOffset (handler \<lparr>clientX = 160, clientY = 20\<rparr>
      (Some \<lparr>rect_left = 0, rect_top = 0, rect_width = 120, rect_height = 200\<rparr>) (initial 0 (\<lambda>_. 0)))
     = \<lparr>vx = 1, vy = - 1\<rparr> \<and>
   dx_of \<lparr>clientX = - 40, clientY = 93\<rparr>
      \<lparr>rect_left = 0, rect_top = 0, rect_width = 120, rect_height = 180\<rparr> = Finite (- 100) \<and>
   dy_of \<lparr>clientX = - 40, clientY = 93\<rparr>
      \<lparr>rect_left = 0, rect_top = 0, rect_width = 120, rect_height = 180\<rparr> = Finite (30 + 1 / 2 ^ 47) \<and>
   pupilOffset (handler \<lparr>clientX = - 40, clientY = 93\<rparr>
      (Some \<lparr>rect_left = 0, rect_top = 0, rect_width = 120, rect_height = 180\<rparr>) (initial 0 (\<lambda>_. 0)))
     = \<lparr>vx = - 1, vy = 1\<rparr> \<and>
   dx_of \<lparr>clientX = 90, clientY = 40\<rparr>
      \<lparr>rect_left = 0, rect_top = 0, rect_width = 120, rect_height = 200\<rparr> = Finite 30 \<and>
   dy_of \<lparr>clientX = 90, clientY = 40\<rparr>
      \<lparr>rect_left = 0, rect_top = 0, rect_width = 120, rect_height = 200\<rparr> = Finite (- 30) \<and>
   pupilOffset (handler \<lparr>clientX = 90, clientY = 40\<rparr>
      (Some \<lparr>rect_left = 0, rect_top = 0, rect_width = 120, rect_height = 200\<rparr>) (initial 0 (\<lambda>_. 0)))
     = \<lparr>vx = 0, vy = 0\<rparr>"
proof -
  let ?g = "\<lparr>rect_left = 0, rect_top = 0, rect_width = 120, rect_height = 200\<rparr>"
  let ?h = "\<lparr>rect_left = 0, rect_top = 0, rect_width = 120, rect_height = 180\<rparr>"
  let ?a = "\<lparr>clientX = 160, clientY = 20\<rparr>"
  let ?b = "\<lparr>clientX = - 40, clientY = 93\<rparr>"
  let ?c = "\<lparr>clientX = 90, clientY = 40\<rparr>"
  let ?w = "initial 0 (\<lambda>_. 0)"
  have a: "dx_of ?a ?g = Finite 100" "dy_of ?a ?g = Finite (- 50)" by code_simp+
  have b: "dx_of ?b ?h = Finite (- 100)" "dy_of ?b ?h = Finite (30 + 1 / 2 ^ 47)" by code_simp+
  have c: "dx_of ?c ?g = Finite 30" "dy_of ?c ?g = Finite (- 30)" by code_simp+
  from handler_axes [of ?a ?g 100 ?w "- 50"] a
  have 1: "pupilOffset (handler ?a (Some ?g) ?w) = \<lparr>vx = 1, vy = - 1\<rparr>"
    by (simp add: vec2.equality)
  from handler_axes [of ?b ?h "- 100" ?w "30 + 1 / 2 ^ 47"] b
  have 2: "pupilOffset (handler ?b (Some ?h) ?w) = \<lparr>vx = - 1, vy = 1\<rparr>"
    by (simp add: vec2.equality)
  from handler_axes [of ?c ?g 30 ?w "- 30"] c
  have 3: "pupilOffset (handler ?c (Some ?g) ?w) = \<lparr>vx = 0, vy = 0\<rparr>"
    by (simp add: vec2.equality)
  from a b c 1 2 3 show ?thesis by blast
qed

section \<open>Blink episodes\<close>

text \<open>
  C3. When the delay of the blink loop expires, the eyes close and the draw \<open>r\<close>
  selects the episode: below 0.25 the double blink (its first step, the reopening
  after 80, is pending), from 0.25 up to 0.40 the slow blink (reopening and
  rescheduling after 250), otherwise the normal blink (reopening and rescheduling
  after 100).
\<close>

theorem blinkTimeout_bands:
  "isBlinking (blinkTimeout w) \<and>
   (rnd w (draws w) < 0.25 \<longrightarrow>
      timers (blinkTimeout w) = timers w @ [\<lparr>tid = nextId w, due = now w + 80, cb = BlinkDoubleOpen\<rparr>]) \<and>
   (0.25 \<le> rnd w (draws w) \<and> rnd w (draws w) < 0.40 \<longrightarrow>
      timers (blinkTimeout w) = timers w @ [\<lparr>tid = nextId w, due = now w + 250, cb = BlinkOpenSchedule\<rparr>]) \<and>
   (0.40 \<le> rnd w (draws w) \<longrightarrow>
      timers (blinkTimeout w) = timers w @ [\<lparr>tid = nextId w, due = now w + 100, cb = BlinkOpenSchedule\<rparr>])"
  by (simp add: blinkTimeout_def random_def setTimeout_def Let_def)

theorem blinkTimeout_bands_witness:
  "timers (blinkTimeout (initial 0 (\<lambda>_. 0.1))) = [\<lparr>tid = 1, due = 80, cb = BlinkDoubleOpen\<rparr>] \<and>
   timers (blinkTimeout (initial 0 (\<lambda>_. 0.3))) = [\<lparr>tid = 1, due = 250, cb = BlinkOpenSchedule\<rparr>] \<and>
   timers (blinkTimeout (initial 0 (\<lambda>_. 0.7))) = [\<lparr>tid = 1, due = 100, cb = BlinkOpenSchedule\<rparr>]"
  using blinkTimeout_bands [of "initial 0 (\<lambda>_. 0.1)"] blinkTimeout_bands [of "initial 0 (\<lambda>_. 0.3)"]
        blinkTimeout_bands [of "initial 0 (\<lambda>_. 0.7)"]
  by (simp add: initial_def)

text \<open>The remaining steps of the double blink: open, hold 150, close, hold 80, open.\<close>

lemma blink_double_steps:
  "\<not> isBlinking (blinkDoubleOpen w) \<and>
   timers (blinkDoubleOpen w) = timers w @ [\<lparr>tid = nextId w, due = now w + 150, cb = BlinkDoubleClose\<rparr>] \<and>
   isBlinking (blinkDoubleClose w) \<and>
   timers (blinkDoubleClose w) = timers w @ [\<lparr>tid = nextId w, due = now w + 80, cb = BlinkOpenSchedule\<rparr>] \<and>
   \<not> isBlinking (blinkOpenSchedule w) \<and>
   timers (blinkOpenSchedule w) =
     timers w @ [\<lparr>tid = nextId w, due = now w + (2000 + rnd w (draws w) * 6000), cb = BlinkTimeout\<rparr>]"
  by (simp add: blinkDoubleOpen_def blinkDoubleClose_def blinkOpenSchedule_def schedule_blink_def
      random_def setTimeout_def Let_def)

section \<open>Pose resolution\<close>

text \<open>
  C9. The offset of a pupil from the neutral cell of its eye is, on each axis, 1 when
  the component of the effective gaze target is positive and 0 otherwise; with the eyes
  open and no cross-eye override the pupils are drawn at columns 4 and 7 and row 3 plus
  that offset. Two snapshots whose effective targets differ only by one component being
  -1 in one and 0 in the other draw the same pupils.
\<close>

theorem pupil_offset_two_valued:
  "pupilX w = (if 0 < vx (effectivePupil w) then 1 else 0) \<and>
   pupilY w = (if 0 < vy (effectivePupil w) then 1 else 0) \<and>
   (\<not> isBlinking w \<and> \<not> isCrossEyed w \<longrightarrow>
      pupils (Octopus c w) = [pupil_at (4 + pupilX w) (3 + pupilY w), pupil_at (7 + pupilX w) (3 + pupilY w)]) \<and>
   (isBlinking w' = isBlinking w \<and> isCrossEyed w' = isCrossEyed w \<and> crossEyedY w' = crossEyedY w \<and>
    vx (effectivePupil w) = - 1 \<and> vx (effectivePupil w') = 0 \<and>
    vy (effectivePupil w') = vy (effectivePupil w) \<longrightarrow>
      pupils (Octopus c w') = pupils (Octopus c w)) \<and>
   (isBlinking w' = isBlinking w \<and> isCrossEyed w' = isCrossEyed w \<and> crossEyedY w' = crossEyedY w \<and>
    vy (effectivePupil w) = - 1 \<and> vy (effectivePupil w') = 0 \<and>
    vx (effectivePupil w') = vx (effectivePupil w) \<longrightarrow>
      pupils (Octopus c w') = pupils (Octopus c w))"
proof (intro conjI impI)
  show "pupilX w = (if 0 < vx (effectivePupil w) then 1 else 0)" by (rule pupilX_eq)
  show "pupilY w = (if 0 < vy (effectivePupil w) then 1 else 0)" by (rule pupilY_eq)
next
  assume "\<not> isBlinking w \<and> \<not> isCrossEyed w"
  then show "pupils (Octopus c w) =
      [pupil_at (4 + pupilX w) (3 + pupilY w), pupil_at (7 + pupilX w) (3 + pupilY w)]"
    by (simp add: pupils_eq)
next
  assume h: "isBlinking w' = isBlinking w \<and> isCrossEyed w' = isCrossEyed w \<and> crossEyedY w' = crossEyedY w \<and>
    vx (effectivePupil w) = - 1 \<and> vx (effectivePupil w') = 0 \<and>
    vy (effectivePupil w') = vy (effectivePupil w)"
  then have "pupilX w' = pupilX w" "pupilY w' = pupilY w"
    by (simp_all add: pupilX_eq pupilY_eq)
  with h show "pupils (Octopus c w') = pupils (Octopus c w)"
    by (simp only: pupils_eq)
next
  assume h: "isBlinking w' = isBlinking w \<and> isCrossEyed w' = isCrossEyed w \<and> crossEyedY w' = crossEyedY w \<and>
    vy (effectivePupil w) = - 1 \<and> vy (effectivePupil w') = 0 \<and>
    vx (effectivePupil w') = vx (effectivePupil w)"
  then have "pupilX w' = pupilX w" "pupilY w' = pupilY w"
    by (simp_all add: pupilX_eq pupilY_eq)
  with h show "pupils (Octopus c w') = pupils (Octopus c w)"
    by (simp only: pupils_eq)
qed

theorem pupil_offset_two_valued_witness:
  "pupils (Octopus \<lparr>body = ''#D4804A'', eye = ''#F5E6D3'', glow = ''#D4804A''\<rparr>
      ((initial 0 (\<lambda>_. 0))\<lparr>pupilOffset := \<lparr>vx = - 1, vy = - 1\<rparr>\<rparr>)) = [pupil_at 4 3, pupil_at 7 3] \<and>
   pupils (Octopus \<lparr>body = ''#D4804A'', eye = ''#F5E6D3'', glow = ''#D4804A''\<rparr>
      ((initial 0 (\<lambda>_. 0))\<lparr>pupilOffset := \<lparr>vx = 0, vy = - 1\<rparr>\<rparr>))
     = pupils (Octopus \<lparr>body = ''#D4804A'', eye = ''#F5E6D3'', glow = ''#D4804A''\<rparr>
      ((initial 0 (\<lambda>_. 0))\<lparr>pupilOffset := \<lparr>vx = - 1, vy = - 1\<rparr>\<rparr>)) \<and>
   pupils (Octopus \<lparr>body = ''#D4804A'', eye = ''#F5E6D3'', glow = ''#D4804A''\<rparr>
      ((initial 0 (\<lambda>_. 0))\<lparr>pupilOffset := \<lparr>vx = 0, vy = 0\<rparr>\<rparr>))
     = pupils (Octopus \<lparr>body = ''#D4804A'', eye = ''#F5E6D3'', glow = ''#D4804A''\<rparr>
      ((initial 0 (\<lambda>_. 0))\<lparr>pupilOffset := \<lparr>vx = 0, vy = - 1\<rparr>\<rparr>))"
proof -
  let ?k = "\<lparr>body = ''#D4804A'', eye = ''#F5E6D3'', glow = ''#D4804A''\<rparr>"
  let ?a = "(initial 0 (\<lambda>_. 0))\<lparr>pupilOffset := \<lparr>vx = - 1, vy = - 1\<rparr>\<rparr>"
  let ?b = "(initial 0 (\<lambda>_. 0))\<lparr>pupilOffset := \<lparr>vx = 0, vy = - 1\<rparr>\<rparr>"
  let ?d = "(initial 0 (\<lambda>_. 0))\<lparr>pupilOffset := \<lparr>vx = 0, vy = 0\<rparr>\<rparr>"
  have ea: "effectivePupil ?a = \<lparr>vx = - 1, vy = - 1\<rparr>"
    and eb: "effectivePupil ?b = \<lparr>vx = 0, vy = - 1\<rparr>"
    and ec: "effectivePupil ?d = \<lparr>vx = 0, vy = 0\<rparr>"
    by (simp_all add: initial_def effectivePupil_def)
  have flags: "\<not> isBlinking ?a" "\<not> isCrossEyed ?a" "isBlinking ?b = isBlinking ?a"
    "isCrossEyed ?b = isCrossEyed ?a" "crossEyedY ?b = crossEyedY ?a" "isBlinking ?d = isBlinking ?b"
    "isCrossEyed ?d = isCrossEyed ?b" "crossEyedY ?d = crossEyedY ?b"
    by (simp_all add: initial_def)
  from pupil_offset_two_valued [of ?a ?k ?b] flags ea
  have 1: "pupils (Octopus ?k ?a) = [pupil_at 4 3, pupil_at 7 3]"
    by simp
  from pupil_offset_two_valued [of ?a ?k ?b] flags ea eb
  have 2: "pupils (Octopus ?k ?b) = pupils (Octopus ?k ?a)"
    by simp
  from pupil_offset_two_valued [of ?b ?k ?d] flags eb ec
  have 3: "pupils (Octopus ?k ?d) = pupils (Octopus ?k ?b)"
    by simp
  from 1 2 3 show ?thesis by blast
qed

text \<open>
  C5. While the blink flag is set, both eyes are filled with the body colour and no
  pupil is drawn, whatever the cross-eye override and the gaze. Rendering is a function
  of the snapshot and writes nothing; when the override is set and one of the callbacks
  that end a blink (lines 142, 146/151/154, 221) runs, the pupils are drawn at the
  convergent position again.
\<close>

theorem blink_closes_eyes:
  assumes "isBlinking w"
  shows "leftEye (Octopus c w) =
           [\<lparr>rx = 4, ry = 3, rwidth = 2, rheight = 1.02, fill = body c, opacity = None\<rparr>,
            \<lparr>rx = 4, ry = 4, rwidth = 2, rheight = 1.02, fill = body c, opacity = None\<rparr>] \<and>
         rightEye (Octopus c w) =
           [\<lparr>rx = 7, ry = 3, rwidth = 2, rheight = 1.02, fill = body c, opacity = None\<rparr>,
            \<lparr>rx = 7, ry = 4, rwidth = 2, rheight = 1.02, fill = body c, opacity = None\<rparr>] \<and>
         pupils (Octopus c w) = [] \<and>
         (isCrossEyed w \<and> k \<in> {BlinkOpen, BlinkOpenSchedule, BlinkDoubleOpen} \<and>
          run_callback k w = Some w' \<longrightarrow>
            pupils (Octopus c w') = [pupil_at 5 (crossEyedY w), pupil_at 7 (crossEyedY w)])"
  using assms
  by (auto simp add: Octopus_def eyesClosed_def LEFT_EYE_spans RIGHT_EYE_spans pupil_at_def
        leftPx_def leftPy_def rightPx_def rightPy_def blinkOpenSchedule_def blinkDoubleOpen_def
        schedule_blink_def random_def setTimeout_def Let_def)

theorem blink_closes_eyes_witness:
  "isBlinking ((initial 0 (\<lambda>_. 0))\<lparr>isBlinking := True, isCrossEyed := True, crossEyedY := 3\<rparr>) \<and>
   pupils (Octopus \<lparr>body = ''#D4804A'', eye = ''#F5E6D3'', glow = ''#D4804A''\<rparr>
      ((initial 0 (\<lambda>_. 0))\<lparr>isBlinking := True, isCrossEyed := True, crossEyedY := 3\<rparr>)) = [] \<and>
   pupils (Octopus \<lparr>body = ''#D4804A'', eye = ''#F5E6D3'', glow = ''#D4804A''\<rparr>
      ((initial 0 (\<lambda>_. 0))\<lparr>isBlinking := False, isCrossEyed := True, crossEyedY := 3\<rparr>))
     = [pupil_at 5 3, pupil_at 7 3]"
  using blink_closes_eyes [of "(initial 0 (\<lambda>_. 0))\<lparr>isBlinking := True, isCrossEyed := True, crossEyedY := 3\<rparr>"
          "\<lparr>body = ''#D4804A'', eye = ''#F5E6D3'', glow = ''#D4804A''\<rparr>"
          BlinkOpen "(initial 0 (\<lambda>_. 0))\<lparr>isBlinking := False, isCrossEyed := True, crossEyedY := 3\<rparr>"]
  by (simp add: initial_def)

section \<open>The timer table\<close>

lemma earliest_in: "earliest ts = Some a \<Longrightarrow> a \<in> set ts"
  by (induction ts arbitrary: a) (auto split: option.splits if_splits)

lemma earliest_append_late:
  "\<forall>u\<in>set ts. D < due u \<Longrightarrow> earliest us = Some b \<Longrightarrow> due b \<le> D \<Longrightarrow> earliest (ts @ us) = Some b"
  by (induction ts) (auto split: option.splits)

lemma earliest_Nil: "earliest ts = None \<Longrightarrow> ts = []"
  by (cases ts) (auto split: option.splits if_splits)

lemma earliest_least: "earliest ts = Some a \<Longrightarrow> u \<in> set ts \<Longrightarrow> due a \<le> due u"
  by (induction ts arbitrary: a) (auto split: option.splits if_splits dest: earliest_Nil)

lemma advance_done:
  assumes "advance T w = Some w'"
  shows "\<forall>u\<in>set (timers w'). T < due u"
proof (rule advance.raw_induct [where P = "\<lambda>T w w'. \<forall>u\<in>set (timers w'). T < due u", OF _ assms])
  fix adv t v y
  assume IH: "\<And>t v y. adv t v = Some y \<Longrightarrow> \<forall>u\<in>set (timers y). t < due u"
    and body: "(case earliest (timers v) of
                  None \<Rightarrow> Some (v\<lparr>now := max (now v) t\<rparr>)
                | Some tm \<Rightarrow> if due tm \<le> t then Option.bind (fire tm v) (adv t)
                             else Some (v\<lparr>now := max (now v) t\<rparr>)) = Some y"
  show "\<forall>u\<in>set (timers y). t < due u"
  proof (cases "earliest (timers v)")
    case None
    with body earliest_Nil [OF None] show ?thesis by auto
  next
    case (Some tm)
    show ?thesis
    proof (cases "due tm \<le> t")
      case True
      with body Some obtain v' where "fire tm v = Some v'" "adv t v' = Some y"
        by (auto simp add: bind_eq_Some_conv)
      then show ?thesis using IH by blast
    next
      case False
      with body Some have y: "y = v\<lparr>now := max (now v) t\<rparr>" by simp
      from False earliest_least [OF Some] show ?thesis by (fastforce simp add: y)
    qed
  qed
qed

lemma idleTimeout_keeps:
  assumes "idleTimeout v = Some v'" and "u \<in> set (timers v)"
  shows "u \<in> set (timers v')"
  using assms
  by (auto simp add: idleTimeout_def schedule_idle_def sched_defs split: if_splits option.splits)

lemma run_callback_keeps:
  assumes "run_callback k v = Some v'" and "u \<in> set (timers v)"
  shows "u \<in> set (timers v')"
proof (cases "k = IdleTimeout")
  case True
  with assms idleTimeout_keeps [of v v' u] show ?thesis by simp
next
  case False
  with assms show ?thesis
    by (cases k) (auto simp add: callback_defs sched_defs split: if_splits)
qed

lemma fire_keeps:
  assumes "fire tm v = Some v'" and "u \<in> set (timers v)" and "u \<noteq> tm"
  shows "u \<in> set (timers v')"
proof -
  from assms(2,3) have "u \<in> set (remove1 tm (timers v))" by simp
  with assms(1) show ?thesis
    using run_callback_keeps [of "cb tm" "v\<lparr>timers := remove1 tm (timers v), now := max (now v) (due tm)\<rparr>" v' u]
    by (simp add: fire_def)
qed

lemma advance_keeps:
  assumes "advance T w = Some w'"
  shows "\<forall>u\<in>set (timers w). T < due u \<longrightarrow> u \<in> set (timers w')"
proof (rule advance.raw_induct
    [where P = "\<lambda>T w w'. \<forall>u\<in>set (timers w). T < due u \<longrightarrow> u \<in> set (timers w')", OF _ assms])
  fix adv t v y
  assume IH: "\<And>t v y. adv t v = Some y \<Longrightarrow> \<forall>u\<in>set (timers v). t < due u \<longrightarrow> u \<in> set (timers y)"
    and body: "(case earliest (timers v) of
                  None \<Rightarrow> Some (v\<lparr>now := max (now v) t\<rparr>)
                | Some tm \<Rightarrow> if due tm \<le> t then Option.bind (fire tm v) (adv t)
                             else Some (v\<lparr>now := max (now v) t\<rparr>)) = Some y"
  show "\<forall>u\<in>set (timers v). t < due u \<longrightarrow> u \<in> set (timers y)"
  proof (cases "earliest (timers v)")
    case None
    with body show ?thesis by auto
  next
    case (Some tm)
    show ?thesis
    proof (cases "due tm \<le> t")
      case True
      with body Some obtain v' where f: "fire tm v = Some v'" and a: "adv t v' = Some y"
        by (auto simp add: bind_eq_Some_conv)
      show ?thesis
      proof (intro ballI impI)
        fix u assume u: "u \<in> set (timers v)" "t < due u"
        with True have "u \<noteq> tm" by auto
        from fire_keeps [OF f u(1) this] IH [OF a] u(2) show "u \<in> set (timers y)" by blast
      qed
    next
      case False
      with body Some show ?thesis by auto
    qed
  qed
qed

lemma advance_idle:
  "\<forall>u\<in>set (timers v). t < due u \<Longrightarrow> advance t v = Some (v\<lparr>now := max (now v) t\<rparr>)"
proof (cases "earliest (timers v)")
  case None
  then show ?thesis by (subst advance.simps) simp
next
  case (Some tm)
  assume "\<forall>u\<in>set (timers v). t < due u"
  with earliest_in [OF Some] have "\<not> due tm \<le> t" by auto
  with Some show ?thesis by (subst advance.simps) simp
qed

lemma advance_fire:
  "earliest (timers v) = Some tm \<Longrightarrow> due tm \<le> t \<Longrightarrow> fire tm v = Some v' \<Longrightarrow>
   advance t v = advance t v'"
  by (subst advance.simps) simp

lemma advance_late:
  assumes "timers v = ts @ us" and "\<forall>u\<in>set ts. D < due u" and "earliest us = Some b"
    and "due b \<le> D" and "due b \<le> t"
    and "run_callback (cb b) (v\<lparr>timers := ts @ remove1 b us, now := max (now v) (due b)\<rparr>) = Some v'"
  shows "advance t v = advance t v'"
proof -
  from assms have e: "earliest (timers v) = Some b"
    by (simp add: earliest_append_late)
  from assms have "b \<notin> set ts" by auto
  with assms have "fire b v = Some v'"
    by (simp add: fire_def remove1_append)
  with e assms(5) show ?thesis by (rule advance_fire)
qed

section \<open>Pointer enter and leave\<close>

lemma hover_trace:
  assumes late: "\<forall>u\<in>set (timers w). now w + 450 < due u" and "0 \<le> t" and "t \<le> 450"
  shows "map_option hover_view (advance (now w + t) (handleMouseEnter w)) =
         Some (True, t < 120,
               if t < 50 then wiggleGroups w else if t < 150 then {1, 2}
               else if t < 300 then {0, 1, 2, 3} else if t < 450 then {0, 3} else {})"
proof -
  let ?b = "\<lparr>tid = nextId w, due = now w + 120, cb = BlinkOpen\<rparr>"
  let ?g1 = "\<lparr>tid = nextId w + 1, due = now w + 50, cb = WiggleSet {1, 2}\<rparr>"
  let ?g2 = "\<lparr>tid = nextId w + 2, due = now w + 150, cb = WiggleSet {0, 1, 2, 3}\<rparr>"
  let ?g3 = "\<lparr>tid = nextId w + 3, due = now w + 300, cb = WiggleSet {0, 3}\<rparr>"
  let ?g4 = "\<lparr>tid = nextId w + 4, due = now w + 450, cb = WiggleSet {}\<rparr>"
  let ?W = "\<lambda>rest b g d. w\<lparr>isHovered := True, isBlinking := b, wiggleGroups := g,
              timers := timers w @ rest, nextId := nextId w + 5, now := now w + d\<rparr>"
  let ?T = "now w + t"
  have w0: "handleMouseEnter w = ?W [?b, ?g1, ?g2, ?g3, ?g4] True (wiggleGroups w) 0"
    by (simp add: handleMouseEnter_def setTimeout_def Let_def)
  have stop: "advance ?T (?W rest b g d) = Some ((?W rest b g d)\<lparr>now := max (now w + d) ?T\<rparr>)"
    if "\<forall>u\<in>set rest. ?T < due u" for rest b g d
    using that late assms(3) by (subst advance_idle) auto
  have s1: "advance ?T (?W [?b, ?g1, ?g2, ?g3, ?g4] True (wiggleGroups w) 0) =
            advance ?T (?W [?b, ?g2, ?g3, ?g4] True {1, 2} 50)" if "50 \<le> t"
    by (rule advance_late [where ts = "timers w" and D = "now w + 450" and b = ?g1
          and us = "[?b, ?g1, ?g2, ?g3, ?g4]"]) (use late that in \<open>simp_all\<close>)
  have s2: "advance ?T (?W [?b, ?g2, ?g3, ?g4] True {1, 2} 50) =
            advance ?T (?W [?g2, ?g3, ?g4] False {1, 2} 120)" if "120 \<le> t"
    by (rule advance_late [where ts = "timers w" and D = "now w + 450" and b = ?b
          and us = "[?b, ?g2, ?g3, ?g4]"]) (use late that in \<open>simp_all\<close>)
  have s3: "advance ?T (?W [?g2, ?g3, ?g4] False {1, 2} 120) =
            advance ?T (?W [?g3, ?g4] False {0, 1, 2, 3} 150)" if "150 \<le> t"
    by (rule advance_late [where ts = "timers w" and D = "now w + 450" and b = ?g2
          and us = "[?g2, ?g3, ?g4]"]) (use late that in \<open>simp_all\<close>)
  have s4: "advance ?T (?W [?g3, ?g4] False {0, 1, 2, 3} 150) =
            advance ?T (?W [?g4] False {0, 3} 300)" if "300 \<le> t"
    by (rule advance_late [where ts = "timers w" and D = "now w + 450" and b = ?g3
          and us = "[?g3, ?g4]"]) (use late that in \<open>simp_all\<close>)
  have s5: "advance ?T (?W [?g4] False {0, 3} 300) =
            advance ?T (?W [] False {} 450)" if "450 \<le> t"
    by (rule advance_late [where ts = "timers w" and D = "now w + 450" and b = ?g4
          and us = "[?g4]"]) (use late that in \<open>simp_all\<close>)
  let ?Wa = "?W [?b, ?g1, ?g2, ?g3, ?g4] True (wiggleGroups w) 0"
  let ?Wb = "?W [?b, ?g2, ?g3, ?g4] True {1, 2} 50"
  let ?Wc = "?W [?g2, ?g3, ?g4] False {1, 2} 120"
  let ?Wd = "?W [?g3, ?g4] False {0, 1, 2, 3} 150"
  let ?We = "?W [?g4] False {0, 3} 300"
  let ?Wf = "?W [] False {} 450"
  consider "t < 50" | "50 \<le> t" "t < 120" | "120 \<le> t" "t < 150" | "150 \<le> t" "t < 300"
    | "300 \<le> t" "t < 450" | "t = 450"
    using assms(3) by linarith
  then show ?thesis
  proof cases
    case 1
    have "advance ?T (handleMouseEnter w) = advance ?T ?Wa" by (simp only: w0)
    also have "\<dots> = Some (?Wa\<lparr>now := max (now w + 0) ?T\<rparr>)"
      by (rule stop) (use 1 in simp)
    finally show ?thesis using 1 by (simp add: hover_view_def)
  next
    case 2
    have "advance ?T (handleMouseEnter w) = advance ?T ?Wa" by (simp only: w0)
    also have "\<dots> = advance ?T ?Wb" by (rule s1) (use 2 in simp)
    also have "\<dots> = Some (?Wb\<lparr>now := max (now w + 50) ?T\<rparr>)"
      by (rule stop) (use 2 in simp)
    finally show ?thesis using 2 by (simp add: hover_view_def)
  next
    case 3
    have "advance ?T (handleMouseEnter w) = advance ?T ?Wa" by (simp only: w0)
    also have "\<dots> = advance ?T ?Wb" by (rule s1) (use 3 in simp)
    also have "\<dots> = advance ?T ?Wc" by (rule s2) (use 3 in simp)
    also have "\<dots> = Some (?Wc\<lparr>now := max (now w + 120) ?T\<rparr>)"
      by (rule stop) (use 3 in simp)
    finally show ?thesis using 3 by (simp add: hover_view_def)
  next
    case 4
    have "advance ?T (handleMouseEnter w) = advance ?T ?Wa" by (simp only: w0)
    also have "\<dots> = advance ?T ?Wb" by (rule s1) (use 4 in simp)
    also have "\<dots> = advance ?T ?Wc" by (rule s2) (use 4 in simp)
    also have "\<dots> = advance ?T ?Wd" by (rule s3) (use 4 in simp)
    also have "\<dots> = Some (?Wd\<lparr>now := max (now w + 150) ?T\<rparr>)"
      by (rule stop) (use 4 in simp)
    finally show ?thesis using 4 by (simp add: hover_view_def)
  next
    case 5
    have "advance ?T (handleMouseEnter w) = advance ?T ?Wa" by (simp only: w0)
    also have "\<dots> = advance ?T ?Wb" by (rule s1) (use 5 in simp)
    also have "\<dots> = advance ?T ?Wc" by (rule s2) (use 5 in simp)
    also have "\<dots> = advance ?T ?Wd" by (rule s3) (use 5 in simp)
    also have "\<dots> = advance ?T ?We" by (rule s4) (use 5 in simp)
    also have "\<dots> = Some (?We\<lparr>now := max (now w + 300) ?T\<rparr>)"
      by (rule stop) (use 5 in simp)
    finally show ?thesis using 5 by (simp add: hover_view_def)
  next
    case 6
    have "advance ?T (handleMouseEnter w) = advance ?T ?Wa" by (simp only: w0)
    also have "\<dots> = advance ?T ?Wb" by (rule s1) (use 6 in simp)
    also have "\<dots> = advance ?T ?Wc" by (rule s2) (use 6 in simp)
    also have "\<dots> = advance ?T ?Wd" by (rule s3) (use 6 in simp)
    also have "\<dots> = advance ?T ?We" by (rule s4) (use 6 in simp)
    also have "\<dots> = advance ?T ?Wf" by (rule s5) (use 6 in simp)
    also have "\<dots> = Some (?Wf\<lparr>now := max (now w + 450) ?T\<rparr>)"
      by (rule stop) (use 6 in simp)
    finally show ?thesis using 6 by (simp add: hover_view_def)
  qed
qed

lemma handleMouseEnter_timers: "timers (handleMouseEnter w) = timers w @ hover_timers w"
  by (simp add: handleMouseEnter_def setTimeout_def Let_def hover_timers_def)

lemma hover_pending:
  assumes "advance (now w + t) (handleMouseEnter w) = Some w'" and "h \<in> set (hover_timers w)"
  shows "h \<in> set (timers w') \<longleftrightarrow> now w + t < due h"
proof
  assume "h \<in> set (timers w')"
  with advance_done [OF assms(1)] show "now w + t < due h" by blast
next
  assume "now w + t < due h"
  moreover have "h \<in> set (timers (handleMouseEnter w))"
    using assms(2) by (simp add: handleMouseEnter_timers)
  ultimately show "h \<in> set (timers w')" using advance_keeps [OF assms(1)] by blast
qed

text \<open>
  C7 as stated fails when another callback is due among the five. With the stream
  \<open>wiggle_draws\<close> an idle gesture sets the wiggle set to {3} at 5000 and leaves its
  clearing pending for 5250. A pointer-enter at 5000 then shows, at 60, 160, 260, 310
  and 450 after it, the wiggle sets {1, 2}, {0, 1, 2, 3}, {}, {0, 3}, {}: the clearing of
  the idle gesture falls between all four limbs and the outer limbs.
\<close>

theorem handleMouseEnter_script_counterexample:
  "map_option hover_view (advance 5000 (mount 0 wiggle_draws)) = Some (False, False, {3}) \<and>
   map_option hover_view
     (Option.bind (map_option handleMouseEnter (advance 5000 (mount 0 wiggle_draws))) (advance 5060))
     = Some (True, True, {1, 2}) \<and>
   map_option hover_view
     (Option.bind (map_option handleMouseEnter (advance 5000 (mount 0 wiggle_draws))) (advance 5160))
     = Some (True, False, {0, 1, 2, 3}) \<and>
   map_option hover_view
     (Option.bind (map_option handleMouseEnter (advance 5000 (mount 0 wiggle_draws))) (advance 5260))
     = Some (True, False, {}) \<and>
   map_option hover_view
     (Option.bind (map_option handleMouseEnter (advance 5000 (mount 0 wiggle_draws))) (advance 5310))
     = Some (True, False, {0, 3}) \<and>
   map_option hover_view
     (Option.bind (map_option handleMouseEnter (advance 5000 (mount 0 wiggle_draws))) (advance 5450))
     = Some (True, False, {})"
  by code_simp

text \<open>
  C7, amended. Pointer-enter sets the hover flag and the blink flag and leaves five
  callbacks pending after the ones already there: the blink flag is cleared after 120,
  and the wiggle set is overwritten with {1, 2} after 50, with {0, 1, 2, 3} after 150,
  with {0, 3} after 300 and with the empty set after 450, whatever it holds then. In
  every run, whatever else is pending, each of the five has run once its delay has
  passed and not before, so they run in that order. When no other callback is due
  within those 450, the flags and the wiggle set go through exactly this sequence: the
  blink flag is set until 120, and the wiggle set is the old one until 50, then {1, 2},
  {0, 1, 2, 3} from 150, {0, 3} from 300 and empty at 450. A callback of another
  controller or of an earlier pointer-enter that is due in between writes in between.
\<close>

theorem handleMouseEnter_script:
  "isHovered (handleMouseEnter w) \<and> isBlinking (handleMouseEnter w) \<and>
   timers (handleMouseEnter w) = timers w @ hover_timers w \<and>
   run_callback BlinkOpen v = Some (v\<lparr>isBlinking := False\<rparr>) \<and>
   run_callback (WiggleSet s) v = Some (v\<lparr>wiggleGroups := s\<rparr>) \<and>
   (advance (now w + t) (handleMouseEnter w) = Some w' \<longrightarrow>
      (\<forall>h\<in>set (hover_timers w). h \<in> set (timers w') \<longleftrightarrow> now w + t < due h)) \<and>
   ((\<forall>u\<in>set (timers w). now w + 450 < due u) \<and> 0 \<le> t \<and> t \<le> 450 \<longrightarrow>
      map_option hover_view (advance (now w + t) (handleMouseEnter w)) =
        Some (True, t < 120,
              if t < 50 then wiggleGroups w else if t < 150 then {1, 2}
              else if t < 300 then {0, 1, 2, 3} else if t < 450 then {0, 3} else {}))"
proof (intro conjI impI ballI)
  assume "(\<forall>u\<in>set (timers w). now w + 450 < due u) \<and> 0 \<le> t \<and> t \<le> 450"
  then show "map_option hover_view (advance (now w + t) (handleMouseEnter w)) =
        Some (True, t < 120,
              if t < 50 then wiggleGroups w else if t < 150 then {1, 2}
              else if t < 300 then {0, 1, 2, 3} else if t < 450 then {0, 3} else {})"
    using hover_trace [of w t] by blast
next
  fix h
  assume "advance (now w + t) (handleMouseEnter w) = Some w'" and "h \<in> set (hover_timers w)"
  then show "h \<in> set (timers w') \<longleftrightarrow> now w + t < due h" by (rule hover_pending)
next
  show "timers (handleMouseEnter w) = timers w @ hover_timers w"
    by (rule handleMouseEnter_timers)
qed (simp_all add: handleMouseEnter_def setTimeout_def Let_def)

theorem handleMouseEnter_script_witness:
  "now (mount 0 (\<lambda>_. 0)) = 0 \<and> map due (timers (mount 0 (\<lambda>_. 0))) = [5000, 2000, 15000, 5000] \<and>
   map_option hover_view (advance 100 (handleMouseEnter (mount 0 (\<lambda>_. 0)))) = Some (True, True, {1, 2}) \<and>
   map_option hover_view (advance 200 (handleMouseEnter (mount 0 (\<lambda>_. 0)))) = Some (True, False, {0, 1, 2, 3}) \<and>
   map_option hover_view (advance 450 (handleMouseEnter (mount 0 (\<lambda>_. 0)))) = Some (True, False, {}) \<and>
   Option.bind (advance 5000 (mount 0 wiggle_draws))
     (\<lambda>w. map_option (\<lambda>w'. map (\<lambda>h. h \<in> set (timers w')) (hover_timers w))
            (advance (now w + 260) (handleMouseEnter w)))
     = Some [False, False, False, True, True]"
proof -
  let ?m = "mount 0 (\<lambda>_. 0)"
  have late: "\<forall>u\<in>set (timers ?m). now ?m + 450 < due u"
    by (simp add: mount_def initial_def cycle_def schedule_blink_def schedule_flash_def
        schedule_idle_def random_def setTimeout_def Let_def)
  have n: "now ?m = 0"
    by (simp add: mount_def initial_def cycle_def schedule_blink_def schedule_flash_def
        schedule_idle_def random_def setTimeout_def Let_def)
  have d: "map due (timers ?m) = [5000, 2000, 15000, 5000]"
    by (simp add: mount_def initial_def cycle_def schedule_blink_def schedule_flash_def
        schedule_idle_def random_def setTimeout_def Let_def)
  from handleMouseEnter_script [of ?m v s 100] handleMouseEnter_script [of ?m v s 200]
    handleMouseEnter_script [of ?m v s 450] late n
  have quiet: "map_option hover_view (advance 100 (handleMouseEnter ?m)) = Some (True, True, {1, 2})"
    "map_option hover_view (advance 200 (handleMouseEnter ?m)) = Some (True, False, {0, 1, 2, 3})"
    "map_option hover_view (advance 450 (handleMouseEnter ?m)) = Some (True, False, {})"
    by simp_all
  have "Option.bind (advance 5000 (mount 0 wiggle_draws))
          (\<lambda>w. advance (now w + 260) (handleMouseEnter w)) \<noteq> None"
    by code_simp
  then obtain w w' where a: "advance 5000 (mount 0 wiggle_draws) = Some w"
    and b: "advance (now w + 260) (handleMouseEnter w) = Some w'"
    by (auto simp add: bind_eq_None_conv)
  from handleMouseEnter_script [of w v s 260 w'] b
  have "\<forall>h\<in>set (hover_timers w). h \<in> set (timers w') \<longleftrightarrow> now w + 260 < due h" by blast
  then have "map (\<lambda>h. h \<in> set (timers w')) (hover_timers w) = [False, False, False, True, True]"
    by (simp add: hover_timers_def)
  with a b have busy: "Option.bind (advance 5000 (mount 0 wiggle_draws))
     (\<lambda>w. map_option (\<lambda>w'. map (\<lambda>h. h \<in> set (timers w')) (hover_timers w))
            (advance (now w + 260) (handleMouseEnter w)))
     = Some [False, False, False, True, True]"
    by simp
  from n d quiet busy show ?thesis by blast
qed

text \<open>
  C10. Pointer-leave clears the hover flag and nothing else: putting the old flag back
  gives the old world, pending callbacks included. When the flag was already clear the
  world is unchanged.
\<close>

theorem handleMouseLeave_frame:
  "\<not> isHovered (handleMouseLeave w) \<and>
   (handleMouseLeave w)\<lparr>isHovered := isHovered w\<rparr> = w \<and>
   (\<not> isHovered w \<longrightarrow> handleMouseLeave w = w)"
  by (simp add: handleMouseLeave_def)

theorem handleMouseLeave_frame_witness:
  "\<not> isHovered (initial 0 (\<lambda>_. 0)) \<and> handleMouseLeave (initial 0 (\<lambda>_. 0)) = initial 0 (\<lambda>_. 0)"
  using handleMouseLeave_frame [of "initial 0 (\<lambda>_. 0)"] by (simp add: initial_def)

section \<open>Invariants of a mounted component\<close>

lemma idleTimeout_frame:
  assumes "idleTimeout v = Some v'"
  shows "episode_steps v' = episode_steps v \<and> delay_timers v' = delay_timers v \<and>
         crossEyedY v' \<in> {3, 4, crossEyedY v}"
  using assms
  by (auto simp add: idleTimeout_def schedule_idle_def sched_defs episode_steps_def delay_timers_def
      split: if_splits option.splits)

lemma run_callback_crossEyedY:
  assumes "run_callback k v = Some v'"
  shows "crossEyedY v' \<in> {3, 4, crossEyedY v}"
proof (cases "k = IdleTimeout")
  case True
  with assms idleTimeout_frame [of v v'] show ?thesis by simp
next
  case False
  with assms have "crossEyedY v' = crossEyedY v"
    by (cases k) (auto simp add: callback_defs sched_defs)
  then show ?thesis by simp
qed

lemma run_callback_delay:
  assumes "run_callback k v = Some v'" and "k \<noteq> BlinkOpenSchedule"
  shows "delay_timers v' = delay_timers v"
proof (cases k)
  case IdleTimeout
  with assms idleTimeout_frame [of v v'] show ?thesis by simp
qed (use assms in \<open>auto simp add: delay_timers_def callback_defs sched_defs\<close>)

lemma run_callback_count:
  assumes "run_callback k v = Some v'"
  shows "length (episode_steps v') + length (delay_timers v') =
         length (episode_steps v) + length (delay_timers v) +
         (if k = BlinkTimeout \<or> k = BlinkDoubleOpen \<or> k = BlinkDoubleClose \<or> k = BlinkOpenSchedule
          then 1 else 0)"
proof (cases k)
  case IdleTimeout
  with assms idleTimeout_frame [of v v'] show ?thesis by simp
qed (use assms in \<open>auto simp add: episode_steps_def delay_timers_def callback_defs sched_defs\<close>)

lemma length_filter_remove1:
  "tm \<in> set ts \<Longrightarrow>
   length (filter P (remove1 tm ts)) + (if P tm then 1 else 0) = length (filter P ts)"
  by (induction ts) auto

lemma taken_count:
  assumes "tm \<in> set (timers w)"
  shows "length (episode_steps (w\<lparr>timers := remove1 tm (timers w), now := d\<rparr>)) +
         length (delay_timers (w\<lparr>timers := remove1 tm (timers w), now := d\<rparr>)) +
         (if cb tm = BlinkTimeout \<or> cb tm = BlinkDoubleOpen \<or> cb tm = BlinkDoubleClose \<or>
             cb tm = BlinkOpenSchedule then 1 else 0) =
         length (episode_steps w) + length (delay_timers w)"
  using length_filter_remove1 [OF assms, of "\<lambda>t. cb t = BlinkDoubleOpen \<or> cb t = BlinkDoubleClose \<or> cb t = BlinkOpenSchedule"]
        length_filter_remove1 [OF assms, of "\<lambda>t. cb t = BlinkTimeout"]
  by (auto simp add: episode_steps_def delay_timers_def split: if_splits)

lemma fire_count:
  assumes "tm \<in> set (timers w)" and "fire tm w = Some w'"
  shows "length (episode_steps w') + length (delay_timers w') =
         length (episode_steps w) + length (delay_timers w)"
  using run_callback_count [OF assms(2) [unfolded fire_def]] taken_count [OF assms(1), of "max (now w) (due tm)"]
  by (simp split: if_splits)

lemma mount_count: "length (episode_steps (mount t0 f)) + length (delay_timers (mount t0 f)) = 1"
  by (simp add: mount_def initial_def cycle_def schedule_blink_def schedule_flash_def schedule_idle_def
      sched_defs episode_steps_def delay_timers_def)

lemma reachable_count:
  "reachable w \<Longrightarrow> length (episode_steps w) + length (delay_timers w) = 1"
proof (induction rule: reachable.induct)
  case (reach_mount t0 f)
  show ?case by (rule mount_count)
next
  case (reach_fire w tm w')
  then show ?case using fire_count [of tm w w'] by simp
next
  case (reach_move w e g)
  then show ?case
    by (simp add: handler_def Let_def episode_steps_def delay_timers_def split: option.splits)
next
  case (reach_enter w)
  then show ?case
    by (simp add: handleMouseEnter_def sched_defs episode_steps_def delay_timers_def)
next
  case (reach_leave w)
  then show ?case
    by (simp add: handleMouseLeave_def episode_steps_def delay_timers_def)
next
  case (reach_tick w t)
  then show ?case by (simp add: episode_steps_def delay_timers_def)
qed

lemma reachable_crossEyedY: "reachable w \<Longrightarrow> crossEyedY w \<in> {3, 4}"
proof (induction rule: reachable.induct)
  case (reach_mount t0 f)
  show ?case
    by (simp add: mount_def initial_def cycle_def schedule_blink_def schedule_flash_def
        schedule_idle_def sched_defs)
next
  case (reach_fire w tm w')
  from run_callback_crossEyedY [OF reach_fire.hyps(3) [unfolded fire_def]]
  have "crossEyedY w' \<in> {3, 4, crossEyedY w}" by simp
  with reach_fire.IH show ?case by auto
next
  case (reach_move w e g)
  then show ?case by (simp add: handler_def Let_def split: option.splits)
next
  case (reach_enter w)
  then show ?case by (simp add: handleMouseEnter_def sched_defs)
next
  case (reach_leave w)
  then show ?case by (simp add: handleMouseLeave_def)
next
  case (reach_tick w t)
  then show ?case by simp
qed

section \<open>The blink loop\<close>

text \<open>
  C8. In every world a mounted component can reach, exactly one callback of the
  autonomous blink loop is pending: either one step of an episode under way or the one
  delay before the next episode, never both and never two. A step that leaves a delay
  pending where none was is the last step of the episode (lines 146, 151, 154): it has
  opened the eyes and no step of the episode remains.
\<close>

theorem blink_loop_one_episode:
  assumes "reachable w"
  shows "length (episode_steps w) + length (delay_timers w) = 1 \<and>
         (tm \<in> set (timers w) \<and> fire tm w = Some w' \<and> delay_timers w = [] \<and> delay_timers w' \<noteq> [] \<longrightarrow>
            cb tm = BlinkOpenSchedule \<and> \<not> isBlinking w' \<and> episode_steps w' = [])"
proof (intro conjI impI)
  show "length (episode_steps w) + length (delay_timers w) = 1"
    using assms by (rule reachable_count)
next
  assume h: "tm \<in> set (timers w) \<and> fire tm w = Some w' \<and> delay_timers w = [] \<and> delay_timers w' \<noteq> []"
  let ?v = "w\<lparr>timers := remove1 tm (timers w), now := max (now w) (due tm)\<rparr>"
  from h have run: "run_callback (cb tm) ?v = Some w'" by (simp add: fire_def)
  have "delay_timers ?v = remove1 tm (delay_timers w)"
    by (simp add: delay_timers_def filter_remove1)
  with h have none: "delay_timers ?v = []" by simp
  show "cb tm = BlinkOpenSchedule"
  proof (rule ccontr)
    assume "cb tm \<noteq> BlinkOpenSchedule"
    from run_callback_delay [OF run this] none h show False by simp
  qed
  with run show "\<not> isBlinking w'"
    by (auto simp add: blinkOpenSchedule_def schedule_blink_def sched_defs)
  from h assms have "reachable w'" by (blast intro: reach_fire)
  then have "length (episode_steps w') + length (delay_timers w') = 1" by (rule reachable_count)
  with h show "episode_steps w' = []" by (cases "delay_timers w'") simp_all
qed

theorem blink_loop_one_episode_witness:
  "case fire \<lparr>tid = 2, due = 5000, cb = BlinkTimeout\<rparr> (mount 0 (\<lambda>_. 1/2)) of
     None \<Rightarrow> False
   | Some w \<Rightarrow>
       reachable w \<and> length (episode_steps w) = 1 \<and> delay_timers w = [] \<and>
       (case fire \<lparr>tid = 5, due = 5100, cb = BlinkOpenSchedule\<rparr> w of
          None \<Rightarrow> False
        | Some w' \<Rightarrow> delay_timers w' \<noteq> [] \<and> \<not> isBlinking w' \<and> episode_steps w' = [])"
proof -
  let ?m = "mount 0 (\<lambda>_. 1/2)"
  let ?t1 = "\<lparr>tid = 2, due = 5000, cb = BlinkTimeout\<rparr>"
  let ?t2 = "\<lparr>tid = 5, due = 5100, cb = BlinkOpenSchedule\<rparr>"
  have ev: "map_option (\<lambda>w. (delay_timers w, ?t2 \<in> set (timers w),
               map_option (\<lambda>w'. delay_timers w' = []) (fire ?t2 w))) (fire ?t1 ?m)
            = Some ([], True, Some False)"
    by code_simp
  then obtain w where f: "fire ?t1 ?m = Some w" by auto
  from ev f obtain w' where f': "fire ?t2 w = Some w'" by auto
  have mem: "?t1 \<in> set (timers ?m)" by code_simp
  have r: "reachable w" by (rule reach_fire [OF reach_mount mem f])
  from ev f f' have hyps: "?t2 \<in> set (timers w)" "delay_timers w = []" "delay_timers w' \<noteq> []"
    by simp_all
  from blink_loop_one_episode [OF r, of ?t2 w'] hyps f f' r show ?thesis by simp
qed

section \<open>The cross-eye override\<close>

text \<open>
  C6. In every world a mounted component can reach, when the override is set and the
  blink flag is clear, the pupils are drawn at column 5 and column 7, both in the row
  \<^verbatim>\<open>crossEyedY\<close>, which is 3 or 4, whatever the gaze target and the eye mode.
\<close>

theorem cross_eye_pose:
  assumes "reachable w" and "isCrossEyed w" and "\<not> isBlinking w"
  shows "pupils (Octopus c w) = [pupil_at 5 (crossEyedY w), pupil_at 7 (crossEyedY w)] \<and>
         (crossEyedY w = 3 \<or> crossEyedY w = 4)"
  using assms reachable_crossEyedY [of w] by (simp add: pupils_eq)

theorem cross_eye_pose_witness:
  "case fire \<lparr>tid = 4, due = 7100, cb = IdleTimeout\<rparr> (mount 0 (\<lambda>i. if i = 5 then 1/5 else 7/10)) of
     None \<Rightarrow> False
   | Some w \<Rightarrow> reachable w \<and> isCrossEyed w \<and> \<not> isBlinking w \<and> crossEyedY w = 3 \<and>
               pupils (Octopus \<lparr>body = ''#D4804A'', eye = ''#F5E6D3'', glow = ''#D4804A''\<rparr> w) = [pupil_at 5 3, pupil_at 7 3]"
proof -
  let ?m = "mount 0 (\<lambda>i. if i = 5 then 1/5 else 7/10)"
  let ?tm = "\<lparr>tid = 4, due = 7100, cb = IdleTimeout\<rparr>"
  have ev: "map_option (\<lambda>w. (isCrossEyed w, isBlinking w, crossEyedY w)) (fire ?tm ?m) = Some (True, False, 3)"
    by code_simp
  then obtain w where f: "fire ?tm ?m = Some w" by auto
  have mem: "?tm \<in> set (timers ?m)" by code_simp
  have r: "reachable w" by (rule reach_fire [OF reach_mount mem f])
  from ev f have flags: "isCrossEyed w" "\<not> isBlinking w" "crossEyedY w = 3" by simp_all
  from cross_eye_pose [OF r flags(1) flags(2), of "\<lparr>body = ''#D4804A'', eye = ''#F5E6D3'', glow = ''#D4804A''\<rparr>"] f r flags show ?thesis by simp
qed

section \<open>The wander direction\<close>

text \<open>
  The eye cycle is started once, by an effect with an empty dependency list, so every
  pending callback of the cycle has captured the \<^verbatim>\<open>pupilOffset\<close> of the first render,
  which is (0, 0). The filter of line 123 then removes nothing, and the direction is
  drawn from all eight, whatever the tracked direction is by then.
\<close>

lemma idleTimeout_captured:
  assumes "idleTimeout v = Some v'" and "t \<in> set (timers v')"
  shows "t \<in> set (timers v) \<or> captured (cb t) = None"
  using assms
  by (auto simp add: idleTimeout_def schedule_idle_def sched_defs split: if_splits option.splits)

lemma run_callback_captured:
  assumes "run_callback k v = Some v'" and "t \<in> set (timers v')"
  shows "t \<in> set (timers v) \<or> captured (cb t) = None \<or> captured (cb t) = captured k"
proof (cases "k = IdleTimeout")
  case True
  with assms idleTimeout_captured [of v v' t] show ?thesis by simp
next
  case False
  with assms show ?thesis
    by (cases k) (auto simp add: callback_defs sched_defs split: if_splits)
qed

lemma reachable_captured:
  "reachable w \<Longrightarrow> \<forall>t\<in>set (timers w). \<forall>p. captured (cb t) = Some p \<longrightarrow> p = \<lparr>vx = 0, vy = 0\<rparr>"
proof (induction rule: reachable.induct)
  case (reach_mount t0 f)
  show ?case
    by (simp add: mount_def initial_def cycle_def schedule_blink_def schedule_flash_def
        schedule_idle_def sched_defs)
next
  case (reach_fire w tm w')
  show ?case
  proof (intro ballI allI impI)
    fix t p
    assume t: "t \<in> set (timers w')" and p: "captured (cb t) = Some p"
    from reach_fire.hyps(3) have run: "run_callback (cb tm)
        (w\<lparr>timers := remove1 tm (timers w), now := max (now w) (due tm)\<rparr>) = Some w'"
      by (simp add: fire_def)
    from run_callback_captured [OF run t] p
    have "t \<in> set (remove1 tm (timers w)) \<or> captured (cb t) = captured (cb tm)" by auto
    then show "p = \<lparr>vx = 0, vy = 0\<rparr>"
    proof
      assume "t \<in> set (remove1 tm (timers w))"
      then have "t \<in> set (timers w)" using set_remove1_subset [of tm "timers w"] by blast
      with reach_fire.IH p show ?thesis by blast
    next
      assume "captured (cb t) = captured (cb tm)"
      with reach_fire.IH reach_fire.hyps(2) p show ?thesis by auto
    qed
  qed
next
  case (reach_move w e g)
  then show ?case by (simp add: handler_def Let_def split: option.splits)
next
  case (reach_enter w)
  then show ?case by (auto simp add: handleMouseEnter_def sched_defs)
next
  case (reach_leave w)
  then show ?case by (simp add: handleMouseLeave_def)
next
  case (reach_tick w t)
  then show ?case by simp
qed

lemma wander_from_all_eight:
  assumes "2000 \<le> now w - lastMouseMoveRef w"
  shows "randomPupil (eyeTrackTimeout \<lparr>vx = 0, vy = 0\<rparr> w) = index_opt LOOK_DIRS \<lfloor>rnd w (draws w) * 8\<rfloor> \<and>
         eyeMode (eyeTrackTimeout \<lparr>vx = 0, vy = 0\<rparr> w) = Wander \<and>
         pupilOffset (eyeTrackTimeout \<lparr>vx = 0, vy = 0\<rparr> w) = pupilOffset w"
  using assms by (simp add: eyeTrackTimeout_def LOOK_DIRS_def sched_defs)

text \<open>
  C4 at a concrete run. The component mounts at time 1000000; the pointer moves to 100
  right of and 100 below the reference point, so the tracked direction is (1, 1); the
  pointer then rests. After 5000 the tracking phase ends, the draw 0.4 selects index 3
  of the eight directions, and the component wanders to (1, 1): the direction it was
  tracking.
\<close>

theorem wander_repeats_tracked_direction:
  "map_option (\<lambda>w. (eyeMode w, randomPupil w, pupilOffset w, effectivePupil w))
     (advance 1005000
        (handler \<lparr>clientX = 160, clientY = 170\<rparr>
           (Some \<lparr>rect_left = 0, rect_top = 0, rect_width = 120, rect_height = 200\<rparr>)
           (mount 1000000 (\<lambda>i. if i = 0 then 0 else if i = 4 then 2/5 else 9/10))))
     = Some (Wander, Some \<lparr>vx = 1, vy = 1\<rparr>, \<lparr>vx = 1, vy = 1\<rparr>, \<lparr>vx = 1, vy = 1\<rparr>)"
  by code_simp

section \<open>Unmount\<close>

text \<open>
  C1 at two concrete runs, every random draw being 0. In the first the component is
  unmounted at 2000, just after the blink delay expired and a double blink started: the
  cleanup clears the id in \<^verbatim>\<open>blinkRef\<close>, which is the expired delay, and the step of line
  142 stays pending. At 2080 it clears the blink flag, and by 2310 the loop has stored a
  new id in \<^verbatim>\<open>blinkRef\<close> and a new delay is pending. In the second the component is
  unmounted right after a pointer-enter, and 50 later the wiggle set is {1, 2}.
\<close>

theorem unmount_leaves_callbacks_pending:
  "map_option (\<lambda>w. (isBlinking w, timers w)) (map_option unmount (advance 2000 (mount 0 (\<lambda>_. 0))))
     = Some (True, [\<lparr>tid = 5, due = 2080, cb = BlinkDoubleOpen\<rparr>]) \<and>
   map_option (\<lambda>w. (isBlinking w, timers w))
     (Option.bind (map_option unmount (advance 2000 (mount 0 (\<lambda>_. 0)))) (advance 2080))
     = Some (False, [\<lparr>tid = 6, due = 2230, cb = BlinkDoubleClose\<rparr>]) \<and>
   map_option (\<lambda>w. (blinkRef w, timers w))
     (Option.bind (map_option unmount (advance 2000 (mount 0 (\<lambda>_. 0)))) (advance 2310))
     = Some (Some 8, [\<lparr>tid = 8, due = 4310, cb = BlinkTimeout\<rparr>]) \<and>
   wiggleGroups (unmount (handleMouseEnter (mount 0 (\<lambda>_. 0)))) = {} \<and>
   map_option wiggleGroups (advance 50 (unmount (handleMouseEnter (mount 0 (\<lambda>_. 0))))) = Some {1, 2}"
  by code_simp

end
